theory Spec2Isabelle
  imports Complex_Main
begin

section \<open>JavaScript numbers\<close>

text \<open>
  The analytics engine of the repository (\<^verbatim>\<open>src/analysis/strategies.js\<close> and the
  \<^verbatim>\<open>greeks.js\<close> module it imports) computes with JavaScript numbers only.
  A number is modelled as a finite real, one of the two infinities, or NaN.  The
  special values follow IEEE 754 as JavaScript does: NaN is contagious and compares
  false with everything, \<open>0 * Infinity\<close>, \<open>Infinity - Infinity\<close>, \<open>0 / 0\<close> and
  \<open>Infinity / Infinity\<close> are NaN, and a non-zero number divided by zero is an infinity.

  Finite values are exact reals: the rounding of every operation to binary64, overflow
  to an infinity and the sign of zero are not modelled (a zero divisor counts as \<open>+0\<close>).
\<close>

datatype jsnum = Num real | PInf | NInf | NaN

fun js_neg :: "jsnum \<Rightarrow> jsnum" where
  "js_neg (Num x) = Num (- x)"
| "js_neg PInf = NInf"
| "js_neg NInf = PInf"
| "js_neg NaN = NaN"

fun js_add :: "jsnum \<Rightarrow> jsnum \<Rightarrow> jsnum" where
  "js_add (Num x) (Num y) = Num (x + y)"
| "js_add (Num x) PInf = PInf"
| "js_add (Num x) NInf = NInf"
| "js_add PInf (Num y) = PInf"
| "js_add PInf PInf = PInf"
| "js_add PInf NInf = NaN"
| "js_add NInf (Num y) = NInf"
| "js_add NInf PInf = NaN"
| "js_add NInf NInf = NInf"
| "js_add NaN b = NaN"
| "js_add a NaN = NaN"

definition js_sub :: "jsnum \<Rightarrow> jsnum \<Rightarrow> jsnum" where
  "js_sub a b = js_add a (js_neg b)"

fun js_mul :: "jsnum \<Rightarrow> jsnum \<Rightarrow> jsnum" where
  "js_mul (Num x) (Num y) = Num (x * y)"
| "js_mul (Num x) PInf = (if x = 0 then NaN else if 0 < x then PInf else NInf)"
| "js_mul (Num x) NInf = (if x = 0 then NaN else if 0 < x then NInf else PInf)"
| "js_mul PInf (Num y) = (if y = 0 then NaN else if 0 < y then PInf else NInf)"
| "js_mul NInf (Num y) = (if y = 0 then NaN else if 0 < y then NInf else PInf)"
| "js_mul PInf PInf = PInf"
| "js_mul PInf NInf = NInf"
| "js_mul NInf PInf = NInf"
| "js_mul NInf NInf = PInf"
| "js_mul NaN b = NaN"
| "js_mul a NaN = NaN"

fun js_div :: "jsnum \<Rightarrow> jsnum \<Rightarrow> jsnum" where
  "js_div (Num x) (Num y) =
     (if y = 0 then (if x = 0 then NaN else if 0 < x then PInf else NInf)
      else Num (x / y))"
| "js_div (Num x) PInf = Num 0"
| "js_div (Num x) NInf = Num 0"
| "js_div PInf (Num y) = (if 0 \<le> y then PInf else NInf)"
| "js_div NInf (Num y) = (if 0 \<le> y then NInf else PInf)"
| "js_div PInf PInf = NaN"
| "js_div PInf NInf = NaN"
| "js_div NInf PInf = NaN"
| "js_div NInf NInf = NaN"
| "js_div NaN b = NaN"
| "js_div a NaN = NaN"

text \<open>The comparisons \<open><\<close>, \<open><=\<close>, \<open>>\<close> and \<open>===\<close>: false as soon as one side is NaN.\<close>

fun js_lt :: "jsnum \<Rightarrow> jsnum \<Rightarrow> bool" where
  "js_lt (Num x) (Num y) = (x < y)"
| "js_lt (Num x) PInf = True"
| "js_lt NInf (Num y) = True"
| "js_lt NInf PInf = True"
| "js_lt a b = False"

fun js_eq :: "jsnum \<Rightarrow> jsnum \<Rightarrow> bool" where
  "js_eq NaN b = False"
| "js_eq a NaN = False"
| "js_eq a b = (a = b)"

definition js_le :: "jsnum \<Rightarrow> jsnum \<Rightarrow> bool" where
  "js_le a b = (js_lt a b \<or> js_eq a b)"

definition js_gt :: "jsnum \<Rightarrow> jsnum \<Rightarrow> bool" where
  "js_gt a b = js_lt b a"

text \<open>\<open>Math.max\<close> of two arguments, \<open>Math.abs\<close>, \<open>Math.round\<close> (the nearest integer,
  a tie going up), \<open>Math.sqrt\<close>, \<open>Math.exp\<close> and \<open>Math.log\<close>.\<close>

fun js_max :: "jsnum \<Rightarrow> jsnum \<Rightarrow> jsnum" where
  "js_max NaN b = NaN"
| "js_max a NaN = NaN"
| "js_max a b = (if js_lt a b then b else a)"

fun js_abs :: "jsnum \<Rightarrow> jsnum" where
  "js_abs (Num x) = Num \<bar>x\<bar>"
| "js_abs PInf = PInf"
| "js_abs NInf = PInf"
| "js_abs NaN = NaN"

fun js_round :: "jsnum \<Rightarrow> jsnum" where
  "js_round (Num x) = Num (of_int \<lfloor>x + 1 / 2\<rfloor>)"
| "js_round a = a"

fun js_sqrt :: "jsnum \<Rightarrow> jsnum" where
  "js_sqrt (Num x) = (if x < 0 then NaN else Num (sqrt x))"
| "js_sqrt PInf = PInf"
| "js_sqrt NInf = NaN"
| "js_sqrt NaN = NaN"

fun js_exp :: "jsnum \<Rightarrow> jsnum" where
  "js_exp (Num x) = Num (exp x)"
| "js_exp PInf = PInf"
| "js_exp NInf = Num 0"
| "js_exp NaN = NaN"

fun js_log :: "jsnum \<Rightarrow> jsnum" where
  "js_log (Num x) = (if x < 0 then NaN else if x = 0 then NInf else Num (ln x))"
| "js_log PInf = PInf"
| "js_log NInf = NaN"
| "js_log NaN = NaN"

text \<open>The idiom \<open>Math.round(x * d) / d\<close> that rounds to a fixed number of decimals.\<close>

definition roundTo :: "real \<Rightarrow> jsnum \<Rightarrow> jsnum" where
  "roundTo d x = js_div (js_round (js_mul x (Num d))) (Num d)"

text \<open>None of the functions below contains a \<open>throw\<close>, and no operation on numbers
  throws in JavaScript.  The exported functions return a sum so that raising an error
  can be stated at all; the source gives the model no \<open>Inl\<close> branch to take.\<close>

datatype error = DomainError

section \<open>The pricing kernel (greeks.js)\<close>

definition normalCDF :: "jsnum \<Rightarrow> jsnum" where
  "normalCDF x0 =
    (let a1 = Num 0.254829592;
         a2 = Num (- 0.284496736);
         a3 = Num 1.421413741;
         a4 = Num (- 1.453152027);
         a5 = Num 1.061405429;
         p = Num 0.3275911;
         sign = (if js_lt x0 (Num 0) then Num (- 1) else Num 1);
         x = js_div (js_abs x0) (js_sqrt (Num 2));
         t = js_div (Num 1) (js_add (Num 1) (js_mul p x));
         y = js_sub (Num 1)
               (js_mul
                 (js_mul
                   (js_add (js_mul (js_add (js_mul (js_add (js_mul
                      (js_add (js_mul a5 t) a4) t) a3) t) a2) t) a1) t)
                 (js_exp (js_mul (js_neg x) x)))
     in js_mul (Num 0.5) (js_add (Num 1) (js_mul sign y)))"

definition normalPDF :: "jsnum \<Rightarrow> jsnum" where
  "normalPDF x =
     js_div (js_exp (js_mul (js_mul (Num (- 0.5)) x) x)) (js_sqrt (js_mul (Num 2) (Num pi)))"

definition calculateD1D2 :: "jsnum \<Rightarrow> jsnum \<Rightarrow> jsnum \<Rightarrow> jsnum \<Rightarrow> jsnum \<Rightarrow> jsnum \<times> jsnum" where
  "calculateD1D2 S K T r sigma =
    (let d1 = js_div
                (js_add (js_log (js_div S K))
                        (js_mul (js_add r (js_mul (js_mul (Num 0.5) sigma) sigma)) T))
                (js_mul sigma (js_sqrt T));
         d2 = js_sub d1 (js_mul sigma (js_sqrt T))
     in (d1, d2))"

record greeks =
  price :: jsnum
  delta :: jsnum
  gamma :: jsnum
  theta :: jsnum
  vega :: jsnum
  rho :: jsnum

text \<open>The arguments are the fields of the parameter object, in the order
  \<open>spotPrice\<close>, \<open>strikePrice\<close>, \<open>timeToExpiry\<close>, \<open>riskFreeRate\<close>, \<open>volatility\<close>,
  \<open>optionType\<close>; an option type other than \<open>'call'\<close> is priced as a put.\<close>

definition calculateGreeks ::
  "jsnum \<Rightarrow> jsnum \<Rightarrow> jsnum \<Rightarrow> jsnum \<Rightarrow> jsnum \<Rightarrow> string \<Rightarrow> error + greeks" where
  "calculateGreeks S K T r sigma optionType =
    (if js_le T (Num 0) then
       Inr \<lparr> price = (if optionType = ''call'' then js_max (Num 0) (js_sub S K)
                       else js_max (Num 0) (js_sub K S)),
             delta = (if optionType = ''call'' then (if js_gt S K then Num 1 else Num 0)
                       else (if js_lt S K then Num (- 1) else Num 0)),
             gamma = Num 0, theta = Num 0, vega = Num 0, rho = Num 0 \<rparr>
     else
       (case calculateD1D2 S K T r sigma of (d1, d2) \<Rightarrow>
         let sqrtT = js_sqrt T;
             expRT = js_exp (js_mul (js_neg r) T);
             price0 = (if optionType = ''call''
                       then js_sub (js_mul S (normalCDF d1))
                                   (js_mul (js_mul K expRT) (normalCDF d2))
                       else js_sub (js_mul (js_mul K expRT) (normalCDF (js_neg d2)))
                                   (js_mul S (normalCDF (js_neg d1))));
             delta0 = (if optionType = ''call'' then normalCDF d1
                       else js_sub (normalCDF d1) (Num 1));
             rho0 = (if optionType = ''call''
                     then js_div (js_mul (js_mul (js_mul K T) expRT) (normalCDF d2)) (Num 100)
                     else js_div (js_mul (js_mul (js_mul (js_neg K) T) expRT)
                                         (normalCDF (js_neg d2))) (Num 100));
             gamma0 = js_div (normalPDF d1) (js_mul (js_mul S sigma) sqrtT);
             thetaAnnual =
               (if optionType = ''call''
                then js_sub (js_div (js_neg (js_mul (js_mul S (normalPDF d1)) sigma))
                                    (js_mul (Num 2) sqrtT))
                            (js_mul (js_mul (js_mul r K) expRT) (normalCDF d2))
                else js_add (js_div (js_neg (js_mul (js_mul S (normalPDF d1)) sigma))
                                    (js_mul (Num 2) sqrtT))
                            (js_mul (js_mul (js_mul r K) expRT) (normalCDF (js_neg d2))));
             theta0 = js_div thetaAnnual (Num 365);
             vega0 = js_div (js_mul (js_mul S sqrtT) (normalPDF d1)) (Num 100)
         in Inr \<lparr> price = roundTo 100 price0,
                  delta = roundTo 1000 delta0,
                  gamma = roundTo 10000 gamma0,
                  theta = roundTo 100 theta0,
                  vega = roundTo 100 vega0,
                  rho = roundTo 100 rho0 \<rparr>))"

section \<open>The implied-volatility solver (greeks.js)\<close>

text \<open>What one pass through the body of the \<open>for\<close> loop does: it returns from the
  function, breaks out of the loop, or goes on with an updated \<open>sigma\<close>.\<close>

datatype ivStep = Return jsnum | Break | Next jsnum

definition ivBody ::
  "jsnum \<Rightarrow> jsnum \<Rightarrow> jsnum \<Rightarrow> jsnum \<Rightarrow> jsnum \<Rightarrow> string \<Rightarrow> jsnum \<Rightarrow> jsnum \<Rightarrow> error + ivStep" where
  "ivBody optionPrice spotPrice strikePrice timeToExpiry riskFreeRate ot tolerance sigma =
    (case calculateGreeks spotPrice strikePrice timeToExpiry riskFreeRate sigma ot of
       Inl e \<Rightarrow> Inl e
     | Inr result \<Rightarrow>
        (let priceDiff = js_sub (price result) optionPrice in
         if js_lt (js_abs priceDiff) tolerance then Inr (Return (roundTo 10000 sigma))
         else
           (let vega1 = js_mul (vega result) (Num 100) in
            if js_eq vega1 (Num 0) then Inr Break
            else
              (let sigma1 = js_sub sigma (js_div priceDiff vega1);
                   sigma2 = (if js_le sigma1 (Num 0) then Num 0.01 else sigma1);
                   sigma3 = (if js_gt sigma2 (Num 5) then Num 5 else sigma2)
               in Inr (Next sigma3)))))"

text \<open>The loop \<open>for (let i = 0; i < maxIterations; i++)\<close> followed by the final
  \<open>return\<close>.  The natural number is the count of iterations still allowed,
  \<open>maxIterations - i\<close>; \<open>maxIterations\<close> is taken to be a natural number.\<close>

fun ivLoop ::
  "jsnum \<Rightarrow> jsnum \<Rightarrow> jsnum \<Rightarrow> jsnum \<Rightarrow> jsnum \<Rightarrow> string \<Rightarrow> jsnum \<Rightarrow> nat \<Rightarrow> jsnum \<Rightarrow> error + jsnum" where
  "ivLoop optionPrice spotPrice strikePrice timeToExpiry riskFreeRate ot tolerance 0 sigma =
     Inr (roundTo 10000 sigma)"
| "ivLoop optionPrice spotPrice strikePrice timeToExpiry riskFreeRate ot tolerance (Suc n) sigma =
    (case ivBody optionPrice spotPrice strikePrice timeToExpiry riskFreeRate ot tolerance sigma of
       Inl e \<Rightarrow> Inl e
     | Inr (Return v) \<Rightarrow> Inr v
     | Inr Break \<Rightarrow> Inr (roundTo 10000 sigma)
     | Inr (Next sigma') \<Rightarrow>
         ivLoop optionPrice spotPrice strikePrice timeToExpiry riskFreeRate ot tolerance n sigma')"

definition calculateImpliedVolatility ::
  "jsnum \<Rightarrow> jsnum \<Rightarrow> jsnum \<Rightarrow> jsnum \<Rightarrow> jsnum \<Rightarrow> string \<Rightarrow> nat \<Rightarrow> jsnum \<Rightarrow> error + jsnum" where
  "calculateImpliedVolatility optionPrice spotPrice strikePrice timeToExpiry riskFreeRate ot
       maxIterations tolerance =
     ivLoop optionPrice spotPrice strikePrice timeToExpiry riskFreeRate ot tolerance
       maxIterations (Num 0.2)"

text \<open>The volatilities that the loop hands to \<open>calculateGreeks\<close>, in order.\<close>

fun ivSigmas ::
  "jsnum \<Rightarrow> jsnum \<Rightarrow> jsnum \<Rightarrow> jsnum \<Rightarrow> jsnum \<Rightarrow> string \<Rightarrow> jsnum \<Rightarrow> nat \<Rightarrow> jsnum \<Rightarrow> jsnum list" where
  "ivSigmas optionPrice spotPrice strikePrice timeToExpiry riskFreeRate ot tolerance 0 sigma = []"
| "ivSigmas optionPrice spotPrice strikePrice timeToExpiry riskFreeRate ot tolerance (Suc n) sigma =
    sigma #
    (case ivBody optionPrice spotPrice strikePrice timeToExpiry riskFreeRate ot tolerance sigma of
       Inr (Next sigma') \<Rightarrow>
         ivSigmas optionPrice spotPrice strikePrice timeToExpiry riskFreeRate ot tolerance n sigma'
     | _ \<Rightarrow> [])"

section \<open>Positions and the payoff evaluator (strategies.js)\<close>

text \<open>A leg of a strategy.  \<open>ptype\<close> is the field \<open>type\<close>; \<open>expiry\<close> holds the time
  value, in milliseconds, of \<open>new Date(expiry)\<close> (NaN for an invalid date), and a
  \<open>currentDate\<close> is a time value as well.\<close>

record position =
  ptype :: string
  optionType :: string
  strike :: jsnum
  premium :: jsnum
  quantity :: jsnum
  expiry :: jsnum

definition calculatePositionPL :: "position \<Rightarrow> jsnum \<Rightarrow> jsnum \<Rightarrow> jsnum" where
  "calculatePositionPL position stockPrice currentDate =
    (if ptype position = ''stock''
     then js_mul (js_sub stockPrice (premium position)) (quantity position)
     else
       (let timeToExpiry =
              js_max (Num 0)
                (js_div (js_sub (expiry position) currentDate) (Num (365 * 24 * 60 * 60 * 1000)))
        in if js_le timeToExpiry (Num 0) then
             (let intrinsicValue =
                    (if optionType position = ''call''
                     then js_max (Num 0) (js_sub stockPrice (strike position))
                     else js_max (Num 0) (js_sub (strike position) stockPrice))
              in js_mul (js_mul (js_sub intrinsicValue (premium position)) (quantity position))
                        (Num 100))
           else
             (let intrinsicValue =
                    (if optionType position = ''call''
                     then js_max (Num 0) (js_sub stockPrice (strike position))
                     else js_max (Num 0) (js_sub (strike position) stockPrice))
              in js_mul (js_mul (js_sub intrinsicValue (premium position)) (quantity position))
                        (Num 100))))"

text \<open>A point \<open>{ price, pl }\<close> of the payoff curve; \<open>pprice\<close> is its field \<open>price\<close>.\<close>

record pricePoint =
  pprice :: jsnum
  pl :: jsnum

definition calculateStrategyPL ::
  "position list \<Rightarrow> jsnum list \<Rightarrow> jsnum \<Rightarrow> error + pricePoint list" where
  "calculateStrategyPL positions priceRange currentDate =
     Inr (map (\<lambda>p.
            let totalPL = foldl (\<lambda>sum position.
                                   js_add sum (calculatePositionPL position p currentDate))
                                (Num 0) positions
            in \<lparr> pprice = p, pl = roundTo 100 totalPL \<rparr>)
          priceRange)"

text \<open>\<open>steps\<close> is taken to be a natural number, so that \<open>Array.from\<close> builds the
  \<open>steps + 1\<close> elements of index \<open>0\<close> to \<open>steps\<close>.\<close>

definition generatePriceRange :: "jsnum \<Rightarrow> jsnum \<Rightarrow> nat \<Rightarrow> jsnum list" where
  "generatePriceRange centerPrice percentRange steps =
    (let minPrice = js_mul centerPrice (js_sub (Num 1) percentRange);
         maxPrice = js_mul centerPrice (js_add (Num 1) percentRange);
         stepSize = js_div (js_sub maxPrice minPrice) (Num (real steps))
     in map (\<lambda>i. roundTo 100 (js_add minPrice (js_mul (Num (real i)) stepSize)))
            [0 ..< steps + 1])"

definition bullCallSpread :: "jsnum \<Rightarrow> jsnum \<Rightarrow> jsnum \<Rightarrow> jsnum \<Rightarrow> jsnum \<Rightarrow> position list" where
  "bullCallSpread lowerStrike lowerPremium upperStrike upperPremium expiry0 =
     [\<lparr> ptype = ''option'', optionType = ''call'', strike = lowerStrike,
         premium = lowerPremium, quantity = Num 1, expiry = expiry0 \<rparr>,
      \<lparr> ptype = ''option'', optionType = ''call'', strike = upperStrike,
         premium = upperPremium, quantity = Num (- 1), expiry = expiry0 \<rparr>]"

section \<open>The strategy analyzer (strategies.js)\<close>

text \<open>\<open>maxProfit\<close> and \<open>maxLoss\<close> are the string \<open>'Unlimited'\<close> or a number.\<close>

datatype metric = Unlimited | Value jsnum

record strategyMetrics =
  maxProfit :: metric
  maxLoss :: metric
  breakevenPoints :: "jsnum list"
  netPremium :: jsnum
  plData :: "pricePoint list"

text \<open>One pass through the scanning loop at index \<open>i\<close>, on the triple of the running
  \<open>maxProfit\<close>, \<open>maxLoss\<close> and \<open>breakevenPoints\<close>.\<close>

definition scanStep ::
  "pricePoint list \<Rightarrow> jsnum \<times> jsnum \<times> jsnum list \<Rightarrow> nat \<Rightarrow> jsnum \<times> jsnum \<times> jsnum list" where
  "scanStep pts st i =
    (case st of (maxProfit0, maxLoss0, breakeven0) \<Rightarrow>
      (let price0 = pprice (pts ! i);
           pl0 = pl (pts ! i);
           maxProfit1 = (if js_gt pl0 maxProfit0 then pl0 else maxProfit0);
           maxLoss1 = (if js_lt pl0 maxLoss0 then pl0 else maxLoss0);
           breakeven1 =
             (if 0 < i then
                (let prevPL = pl (pts ! (i - 1)) in
                 if (js_lt prevPL (Num 0) \<and> js_le (Num 0) pl0)
                    \<or> (js_gt prevPL (Num 0) \<and> js_le pl0 (Num 0))
                 then breakeven0 @ [price0] else breakeven0)
              else breakeven0)
       in (maxProfit1, maxLoss1, breakeven1)))"

definition scanPL :: "pricePoint list \<Rightarrow> jsnum \<times> jsnum \<times> jsnum list" where
  "scanPL pts = foldl (scanStep pts) (NInf, PInf, []) [0 ..< length pts]"

text \<open>\<open>expiry0\<close> is the time value of \<open>new Date(expiry)\<close>.\<close>

definition analyzeStrategy :: "position list \<Rightarrow> jsnum \<Rightarrow> jsnum \<Rightarrow> error + strategyMetrics" where
  "analyzeStrategy positions spotPrice expiry0 =
    (let priceRange = generatePriceRange spotPrice (Num 0.3) 100 in
     case calculateStrategyPL positions priceRange expiry0 of
       Inl e \<Rightarrow> Inl e
     | Inr pts \<Rightarrow>
        (case scanPL pts of (maxProfit0, maxLoss0, breakeven0) \<Rightarrow>
          (let netPremium0 =
                 foldl (\<lambda>sum pos.
                          if ptype pos = ''option''
                          then js_add sum (js_mul (js_mul (premium pos) (quantity pos)) (Num 100))
                          else sum)
                       (Num 0) positions
           in Inr \<lparr> maxProfit = (if js_eq maxProfit0 PInf then Unlimited
                                  else Value (roundTo 100 maxProfit0)),
                    maxLoss = (if js_eq maxLoss0 NInf then Unlimited
                                else Value (roundTo 100 maxLoss0)),
                    breakevenPoints = map (roundTo 100) breakeven0,
                    netPremium = roundTo 100 netPremium0,
                    plData = pts \<rparr>)))"

section \<open>The kernel's formulas on finite numbers\<close>

text \<open>The same expressions as in \<open>normalCDF\<close>, \<open>normalPDF\<close>, \<open>calculateD1D2\<close> and
  \<open>calculateGreeks\<close>, written over the reals.  The lemmas \<open>normalCDF_Num\<close>,
  \<open>normalPDF_Num\<close>, \<open>calculateD1D2_Num\<close> and \<open>calculateGreeks_Num\<close> show that the
  functions above compute them on finite arguments.\<close>

definition cdfPoly :: "real \<Rightarrow> real" where
  "cdfPoly t =
     ((((1.061405429 * t + - 1.453152027) * t + 1.421413741) * t + - 0.284496736) * t
        + 0.254829592) * t"

definition erfApprox :: "real \<Rightarrow> real" where
  "erfApprox z = 1 - cdfPoly (1 / (1 + 0.3275911 * z)) * exp (- z * z)"

definition normalCDF_real :: "real \<Rightarrow> real" where
  "normalCDF_real x = 0.5 * (1 + (if x < 0 then - 1 else 1) * erfApprox (\<bar>x\<bar> / sqrt 2))"

definition normalPDF_real :: "real \<Rightarrow> real" where
  "normalPDF_real x = exp (- 0.5 * x * x) / sqrt (2 * pi)"

definition d1_real :: "real \<Rightarrow> real \<Rightarrow> real \<Rightarrow> real \<Rightarrow> real \<Rightarrow> real" where
  "d1_real s k t r v = (ln (s / k) + (r + 0.5 * v * v) * t) / (v * sqrt t)"

definition d2_real :: "real \<Rightarrow> real \<Rightarrow> real \<Rightarrow> real \<Rightarrow> real \<Rightarrow> real" where
  "d2_real s k t r v = d1_real s k t r v - v * sqrt t"

definition callPrice_real :: "real \<Rightarrow> real \<Rightarrow> real \<Rightarrow> real \<Rightarrow> real \<Rightarrow> real" where
  "callPrice_real s k t r v =
     s * normalCDF_real (d1_real s k t r v)
       - k * exp (- r * t) * normalCDF_real (d2_real s k t r v)"

definition putPrice_real :: "real \<Rightarrow> real \<Rightarrow> real \<Rightarrow> real \<Rightarrow> real \<Rightarrow> real" where
  "putPrice_real s k t r v =
     k * exp (- r * t) * normalCDF_real (- d2_real s k t r v)
       - s * normalCDF_real (- d1_real s k t r v)"

definition vega_real :: "real \<Rightarrow> real \<Rightarrow> real \<Rightarrow> real \<Rightarrow> real \<Rightarrow> real" where
  "vega_real s k t r v = s * sqrt t * normalPDF_real (d1_real s k t r v) / 100"

definition roundTo_real :: "real \<Rightarrow> real \<Rightarrow> real" where
  "roundTo_real d x = of_int \<lfloor>x * d + 1 / 2\<rfloor> / d"

section \<open>The solver's iteration, as the specification words it\<close>

text \<open>The stopping tests and the Newton-Raphson update of the solver, written from the
  description \<open>stop when |theoretical price - market price| < tolerance\<close>,
  \<open>stop when vega is exactly 0\<close>, and \<open>sigma <- sigma - priceDiff / (vega * 100)\<close>
  followed by the two guards \<open>sigma <= 0\<close> and \<open>sigma > 5\<close>.  \<open>ivSigmaAt\<close> is the
  volatility after \<open>i\<close> updates, starting from 0.2.  The lemmas \<open>ivBody_converged\<close>,
  \<open>ivBody_vegaZero\<close> and \<open>ivBody_next\<close> relate them to the loop body.\<close>

definition ivConverged ::
  "jsnum \<Rightarrow> jsnum \<Rightarrow> jsnum \<Rightarrow> jsnum \<Rightarrow> jsnum \<Rightarrow> string \<Rightarrow> jsnum \<Rightarrow> jsnum \<Rightarrow> bool" where
  "ivConverged optionPrice spotPrice strikePrice timeToExpiry riskFreeRate ot tolerance sigma =
    (case calculateGreeks spotPrice strikePrice timeToExpiry riskFreeRate sigma ot of
       Inl e \<Rightarrow> False
     | Inr g \<Rightarrow> js_lt (js_abs (js_sub (price g) optionPrice)) tolerance)"

definition ivVegaZero ::
  "jsnum \<Rightarrow> jsnum \<Rightarrow> jsnum \<Rightarrow> jsnum \<Rightarrow> string \<Rightarrow> jsnum \<Rightarrow> bool" where
  "ivVegaZero spotPrice strikePrice timeToExpiry riskFreeRate ot sigma =
    (case calculateGreeks spotPrice strikePrice timeToExpiry riskFreeRate sigma ot of
       Inl e \<Rightarrow> False
     | Inr g \<Rightarrow> js_eq (vega g) (Num 0))"

definition clampSigma :: "jsnum \<Rightarrow> jsnum" where
  "clampSigma sigma1 =
     (let sigma2 = (if js_le sigma1 (Num 0) then Num 0.01 else sigma1)
      in if js_gt sigma2 (Num 5) then Num 5 else sigma2)"

definition newtonUpdate ::
  "jsnum \<Rightarrow> jsnum \<Rightarrow> jsnum \<Rightarrow> jsnum \<Rightarrow> jsnum \<Rightarrow> string \<Rightarrow> jsnum \<Rightarrow> jsnum" where
  "newtonUpdate optionPrice spotPrice strikePrice timeToExpiry riskFreeRate ot sigma =
    (case calculateGreeks spotPrice strikePrice timeToExpiry riskFreeRate sigma ot of
       Inl e \<Rightarrow> sigma
     | Inr g \<Rightarrow>
         clampSigma (js_sub sigma
           (js_div (js_sub (price g) optionPrice) (js_mul (vega g) (Num 100)))))"

definition ivSigmaAt ::
  "jsnum \<Rightarrow> jsnum \<Rightarrow> jsnum \<Rightarrow> jsnum \<Rightarrow> jsnum \<Rightarrow> string \<Rightarrow> nat \<Rightarrow> jsnum" where
  "ivSigmaAt optionPrice spotPrice strikePrice timeToExpiry riskFreeRate ot i =
     (newtonUpdate optionPrice spotPrice strikePrice timeToExpiry riskFreeRate ot ^^ i) (Num 0.2)"

definition ivStops ::
  "jsnum \<Rightarrow> jsnum \<Rightarrow> jsnum \<Rightarrow> jsnum \<Rightarrow> jsnum \<Rightarrow> string \<Rightarrow> jsnum \<Rightarrow> jsnum \<Rightarrow> bool" where
  "ivStops optionPrice spotPrice strikePrice timeToExpiry riskFreeRate ot tolerance sigma =
     (ivConverged optionPrice spotPrice strikePrice timeToExpiry riskFreeRate ot tolerance sigma
      \<or> ivVegaZero spotPrice strikePrice timeToExpiry riskFreeRate ot sigma)"

section \<open>Notions used to state the analyzer's properties\<close>

text \<open>A finite number; a leg whose premium and quantity, and whose strike unless it
  is a stock leg, are finite; the sum that \<open>calculateStrategyPL\<close> accumulates at one
  price (the \<open>reduce\<close> over the legs, the lemma \<open>calculateStrategyPL_totalPL\<close>); and
  the payoff, at a finite price, of the bull call spread with strikes 100 and 110 and
  premiums 5 and 2.\<close>

fun isNum :: "jsnum \<Rightarrow> bool" where
  "isNum (Num x) = True"
| "isNum a = False"

definition finitePosition :: "position \<Rightarrow> bool" where
  "finitePosition p =
     (isNum (premium p) \<and> isNum (quantity p) \<and> (ptype p \<noteq> ''stock'' \<longrightarrow> isNum (strike p)))"

definition totalPL :: "position list \<Rightarrow> jsnum \<Rightarrow> jsnum \<Rightarrow> jsnum" where
  "totalPL positions p currentDate =
     foldl (\<lambda>sum position. js_add sum (calculatePositionPL position p currentDate))
           (Num 0) positions"

definition bullPayoff :: "real \<Rightarrow> real" where
  "bullPayoff x = (max 0 (x - 100) - 5) * 1 * 100 + (max 0 (x - 110) - 2) * (- 1) * 100"

section \<open>Arithmetic on finite numbers\<close>

lemma js_max_Num: "js_max (Num a) (Num b) = Num (max a b)"
  by (simp add: max_def)

lemma js_sub_Num: "js_sub (Num a) (Num b) = Num (a - b)"
  by (simp add: js_sub_def)

section \<open>The expired branch of the kernel\<close>

text \<open>
  Claim C4.  Whenever \<open>T <= 0\<close>, \<open>calculateGreeks\<close> returns the intrinsic value as the
  price (\<open>max(0, S - K)\<close> for a call, \<open>max(0, K - S)\<close> for a put), the delta \<open>1\<close> or \<open>0\<close>
  for a call according to \<open>S > K\<close> and \<open>-1\<close> or \<open>0\<close> for a put according to \<open>S < K\<close>,
  and zero for gamma, theta, vega and rho.  The result mentions neither \<open>sigma\<close> nor
  \<open>r\<close>: the branch returns before \<open>d1\<close> and \<open>d2\<close> are computed, so nothing is divided
  by \<open>sigma * sqrt(T)\<close>.
\<close>

theorem calculateGreeks_expired:
  "js_le T (Num 0) \<Longrightarrow>
     calculateGreeks S K T r sigma ''call'' =
       Inr \<lparr> price = js_max (Num 0) (js_sub S K),
             delta = (if js_gt S K then Num 1 else Num 0),
             gamma = Num 0, theta = Num 0, vega = Num 0, rho = Num 0 \<rparr>
   \<and> calculateGreeks S K T r sigma ''put'' =
       Inr \<lparr> price = js_max (Num 0) (js_sub K S),
             delta = (if js_lt S K then Num (- 1) else Num 0),
             gamma = Num 0, theta = Num 0, vega = Num 0, rho = Num 0 \<rparr>"
  by (simp add: calculateGreeks_def)

text \<open>At expiry with \<open>sigma = 0\<close>, spot 110 and strike 100.\<close>

theorem calculateGreeks_expired_witness:
  "js_le (Num 0) (Num 0)
   \<and> calculateGreeks (Num 110) (Num 100) (Num 0) (Num 0.05) (Num 0) ''call'' =
       Inr \<lparr> price = Num 10, delta = Num 1,
             gamma = Num 0, theta = Num 0, vega = Num 0, rho = Num 0 \<rparr>
   \<and> calculateGreeks (Num 110) (Num 100) (Num 0) (Num 0.05) (Num 0) ''put'' =
       Inr \<lparr> price = Num 0, delta = Num 0,
             gamma = Num 0, theta = Num 0, vega = Num 0, rho = Num 0 \<rparr>"
proof -
  have h: "js_le (Num 0) (Num 0)" by (simp add: js_le_def)
  show ?thesis
    using h calculateGreeks_expired [OF h, of "Num 110" "Num 100" "Num 0.05" "Num 0"]
    by (simp add: js_sub_def js_gt_def)
qed

section \<open>The payoff of one leg\<close>

lemma calculatePositionPL_option:
  "ptype p \<noteq> ''stock'' \<Longrightarrow>
   calculatePositionPL p s d =
     js_mul (js_mul (js_sub (if optionType p = ''call''
                             then js_max (Num 0) (js_sub s (strike p))
                             else js_max (Num 0) (js_sub (strike p) s))
                            (premium p)) (quantity p)) (Num 100)"
  by (simp add: calculatePositionPL_def Let_def)

text \<open>
  Claim C5.  For an option leg, any evaluation price and any date,
  \<open>calculatePositionPL\<close> returns \<open>(max(0, price - strike) - premium) * quantity * 100\<close>
  for a call and \<open>(max(0, strike - price) - premium) * quantity * 100\<close> for a put.  The
  two branches on the time to expiry compute the same value, so the date does not
  occur in the result.  For a stock leg it returns \<open>(price - premium) * quantity\<close>,
  without the factor 100.  The subtractions, the maximum and the products are the
  JavaScript operations, in the order of the source.
\<close>

theorem calculatePositionPL_formula:
  "(ptype p = ''option'' \<and> optionType p = ''call'' \<longrightarrow>
      calculatePositionPL p s d =
        js_mul (js_mul (js_sub (js_max (Num 0) (js_sub s (strike p))) (premium p))
                       (quantity p)) (Num 100))
   \<and> (ptype p = ''option'' \<and> optionType p = ''put'' \<longrightarrow>
      calculatePositionPL p s d =
        js_mul (js_mul (js_sub (js_max (Num 0) (js_sub (strike p) s)) (premium p))
                       (quantity p)) (Num 100))
   \<and> (ptype p = ''stock'' \<longrightarrow>
      calculatePositionPL p s d = js_mul (js_sub s (premium p)) (quantity p))"
  by (simp add: calculatePositionPL_option) (simp add: calculatePositionPL_def)

text \<open>A long call one day before expiry, two long puts one day after it, and 100
  shares.\<close>

theorem calculatePositionPL_formula_witness:
  "calculatePositionPL
     \<lparr> ptype = ''option'', optionType = ''call'', strike = Num 100, premium = Num 5,
       quantity = Num 1, expiry = Num 86400000 \<rparr> (Num 112) (Num 0) = Num 700
   \<and> calculatePositionPL
     \<lparr> ptype = ''option'', optionType = ''put'', strike = Num 100, premium = Num 5,
       quantity = Num 2, expiry = Num 0 \<rparr> (Num 90) (Num 86400000) = Num 1000
   \<and> calculatePositionPL
     \<lparr> ptype = ''stock'', optionType = [], strike = NaN, premium = Num 50,
       quantity = Num 100, expiry = NaN \<rparr> (Num 52) (Num 0) = Num 200"
  using calculatePositionPL_formula
          [of "\<lparr> ptype = ''option'', optionType = ''call'', strike = Num 100, premium = Num 5,
                 quantity = Num 1, expiry = Num 86400000 \<rparr>" "Num 112" "Num 0"]
        calculatePositionPL_formula
          [of "\<lparr> ptype = ''option'', optionType = ''put'', strike = Num 100, premium = Num 5,
                 quantity = Num 2, expiry = Num 0 \<rparr>" "Num 90" "Num 86400000"]
        calculatePositionPL_formula
          [of "\<lparr> ptype = ''stock'', optionType = [], strike = NaN, premium = Num 50,
                 quantity = Num 100, expiry = NaN \<rparr>" "Num 52" "Num 0"]
  by (simp add: js_sub_def)

section \<open>The kernel on finite numbers\<close>

lemma roundTo_Num: "d \<noteq> 0 \<Longrightarrow> roundTo d (Num x) = Num (roundTo_real d x)"
  by (simp add: roundTo_def roundTo_real_def)

lemma normalPDF_Num: "normalPDF (Num x) = Num (normalPDF_real x)"
  by (simp add: normalPDF_def normalPDF_real_def)

lemma normalCDF_Num: "normalCDF (Num x) = Num (normalCDF_real x)"
proof -
  have "1 + 0.3275911 * (\<bar>x\<bar> / sqrt 2) > 0"
    by (simp add: add_pos_nonneg)
  then have nz: "1 + 3275911 * \<bar>x\<bar> / (10 ^ 7 * sqrt 2) \<noteq> 0" by simp
  show ?thesis
    using nz
    by (simp add: normalCDF_def normalCDF_real_def erfApprox_def cdfPoly_def Let_def js_sub_def)
qed

lemma normalCDF_real_antisym: "x \<noteq> 0 \<Longrightarrow> normalCDF_real (- x) + normalCDF_real x = 1"
  by (simp add: normalCDF_real_def field_simps)

lemma normalCDF_real_zero: "normalCDF_real 0 = 0.5000000005"
  by (simp add: normalCDF_real_def erfApprox_def cdfPoly_def)

lemma normalCDF_PInf: "normalCDF PInf = Num 1"
  by (simp add: normalCDF_def Let_def js_sub_def)

lemma normalCDF_NInf: "normalCDF NInf = Num 0"
  by (simp add: normalCDF_def Let_def js_sub_def)

lemma normalCDF_NaN: "normalCDF NaN = NaN"
  by (simp add: normalCDF_def Let_def js_sub_def)

lemma calculateD1D2_Num:
  assumes "0 < s" "0 < k" "0 < t" "v \<noteq> 0"
  shows "calculateD1D2 (Num s) (Num k) (Num t) (Num r) (Num v) =
           (Num (d1_real s k t r v), Num (d2_real s k t r v))"
proof -
  have "0 < s / k" using assms by simp
  then have "\<not> s / k < 0" "s / k \<noteq> 0" by linarith+
  then show ?thesis
    using assms
    by (simp add: calculateD1D2_def d1_real_def d2_real_def Let_def js_sub_def)
qed

lemma calculateGreeks_Num:
  assumes "0 < s" "0 < k" "0 < t" "v \<noteq> 0"
  shows "\<exists>g. calculateGreeks (Num s) (Num k) (Num t) (Num r) (Num v) ot = Inr g
           \<and> price g = Num (roundTo_real 100
                 (if ot = ''call'' then callPrice_real s k t r v else putPrice_real s k t r v))
           \<and> vega g = Num (roundTo_real 100 (vega_real s k t r v))"
  using assms
  by (simp add: calculateGreeks_def calculateD1D2_Num js_le_def Let_def normalCDF_Num
        normalPDF_Num js_sub_Num roundTo_Num callPrice_real_def putPrice_real_def vega_real_def)

section \<open>Symmetry of the normal CDF approximation\<close>

text \<open>
  Claim C10, as amended.  For every argument other than zero and NaN,
  \<open>normalCDF(-x) + normalCDF(x) = 1\<close>: the approximation works on \<open>|x|\<close> and the sign
  factor is \<open>-1\<close> for \<open>x < 0\<close> and \<open>+1\<close> otherwise.
\<close>

theorem normalCDF_antisymmetric_nonzero:
  "x \<noteq> NaN \<and> x \<noteq> Num 0 \<longrightarrow>
     js_add (normalCDF (js_neg x)) (normalCDF x) = Num 1"
proof (cases x)
  case (Num r)
  show ?thesis
  proof (cases "r = 0")
    case True
    with Num show ?thesis by simp
  next
    case False
    with normalCDF_real_antisym [OF False] Num show ?thesis
      by (simp add: normalCDF_Num)
  qed
qed (simp_all add: normalCDF_PInf normalCDF_NInf)

theorem normalCDF_antisymmetric_nonzero_witness:
  "Num 1 \<noteq> NaN \<and> Num 1 \<noteq> Num 0
   \<and> js_add (normalCDF (js_neg (Num 1))) (normalCDF (Num 1)) = Num 1"
  using normalCDF_antisymmetric_nonzero [of "Num 1"] by simp

text \<open>
  Claim C10 fails at zero.  Both \<open>0\<close> and \<open>-0\<close> get the sign factor \<open>+1\<close>, and at zero
  the polynomial leaves \<open>y = 1e-9\<close>, so \<open>normalCDF(0) = 0.5000000005\<close> and the two values
  add up to \<open>1.000000001\<close>; the put delta \<open>normalCDF(0) - 1\<close> is \<open>-0.4999999995\<close>
  and \<open>-normalCDF(-0)\<close> is \<open>-0.5000000005\<close>.
\<close>

theorem normalCDF_zero_counterexample:
  "js_add (normalCDF (js_neg (Num 0))) (normalCDF (Num 0)) = Num 1.000000001
   \<and> js_add (normalCDF (js_neg (Num 0))) (normalCDF (Num 0)) \<noteq> Num 1
   \<and> js_sub (normalCDF (Num 0)) (Num 1) \<noteq> js_neg (normalCDF (js_neg (Num 0)))"
  by (simp add: normalCDF_Num normalCDF_real_zero js_sub_def)

section \<open>Domain violations\<close>

text \<open>
  Claim C1, as amended.  No domain error is raised anywhere: \<open>calculateGreeks\<close>
  returns a record of Greeks on every input, whatever the spot, the strike and the
  volatility are (on a domain violation some fields are NaN, others are numbers);
  \<open>calculateStrategyPL\<close> returns the empty curve for an empty price grid, and for an
  empty list of legs it returns one point per grid price with a profit and loss of 0.
\<close>

theorem no_domain_error_raised:
  "(\<exists>g. calculateGreeks S K T r sigma ot = Inr g)
   \<and> calculateStrategyPL positions [] d = Inr []
   \<and> calculateStrategyPL [] priceRange d =
       Inr (map (\<lambda>p. \<lparr> pprice = p, pl = Num 0 \<rparr>) priceRange)"
  by (simp add: calculateGreeks_def calculateStrategyPL_def roundTo_def Let_def
           split: prod.split)

text \<open>
  Claim C1 fails.  With \<open>sigma = 0\<close> and \<open>T = 1\<close> the kernel returns the price 10; with a
  spot of \<open>-1\<close> it returns a record of NaN; with a strike of 0 it returns the price 100;
  the strategy evaluator returns an empty curve for an empty grid and a curve of zeros
  for no legs.  None of the five calls raises.
\<close>

theorem domain_violation_counterexample:
  "calculateGreeks (Num 100) (Num 90) (Num 1) (Num 0) (Num 0) ''call'' =
     Inr \<lparr> price = Num 10, delta = Num 1, gamma = NaN, theta = Num 0, vega = Num 0,
           rho = Num 0.9 \<rparr>
   \<and> calculateGreeks (Num (- 1)) (Num 90) (Num 1) (Num 0.05) (Num 0.2) ''call'' =
     Inr \<lparr> price = NaN, delta = NaN, gamma = NaN, theta = NaN, vega = NaN, rho = NaN \<rparr>
   \<and> calculateGreeks (Num 100) (Num 0) (Num 1) (Num 0.05) (Num 0.2) ''call'' =
     Inr \<lparr> price = Num 100, delta = Num 1, gamma = Num 0, theta = Num 0, vega = Num 0,
           rho = Num 0 \<rparr>
   \<and> calculateStrategyPL (bullCallSpread (Num 100) (Num 5) (Num 110) (Num 2) (Num 0)) []
        (Num 0) = Inr []
   \<and> calculateStrategyPL [] [Num 100] (Num 0) = Inr [\<lparr> pprice = Num 100, pl = Num 0 \<rparr>]"
proof -
  have a: "calculateGreeks (Num 100) (Num 90) (Num 1) (Num 0) (Num 0) ''call'' =
     Inr \<lparr> price = Num 10, delta = Num 1, gamma = NaN, theta = Num 0, vega = Num 0,
           rho = Num 0.9 \<rparr>"
    by (simp add: calculateGreeks_def calculateD1D2_def js_le_def Let_def js_sub_def
          normalCDF_PInf normalPDF_def roundTo_def)
  have b: "calculateGreeks (Num (- 1)) (Num 90) (Num 1) (Num 0.05) (Num 0.2) ''call'' =
     Inr \<lparr> price = NaN, delta = NaN, gamma = NaN, theta = NaN, vega = NaN, rho = NaN \<rparr>"
    by (simp add: calculateGreeks_def calculateD1D2_def js_le_def Let_def js_sub_def
          normalCDF_NaN normalPDF_def roundTo_def)
  have c: "calculateGreeks (Num 100) (Num 0) (Num 1) (Num 0.05) (Num 0.2) ''call'' =
     Inr \<lparr> price = Num 100, delta = Num 1, gamma = Num 0, theta = Num 0, vega = Num 0,
           rho = Num 0 \<rparr>"
    by (simp add: calculateGreeks_def calculateD1D2_def js_le_def Let_def js_sub_def
          normalCDF_PInf normalPDF_def roundTo_def)
  have d: "calculateStrategyPL (bullCallSpread (Num 100) (Num 5) (Num 110) (Num 2) (Num 0)) []
        (Num 0) = Inr []"
    by (simp add: calculateStrategyPL_def)
  have e: "calculateStrategyPL [] [Num 100] (Num 0) = Inr [\<lparr> pprice = Num 100, pl = Num 0 \<rparr>]"
    by (simp add: calculateStrategyPL_def roundTo_def)
  from a b c d e show ?thesis by blast
qed

section \<open>Put-call parity of the formulas over the reals\<close>

text \<open>The Black-Scholes formulas of the kernel, taken over the reals and before any
  rounding, satisfy put-call parity up to the defect of the normal CDF approximation
  at zero.  This is a property of the formulas, not of their evaluation in binary64.\<close>

lemma normalCDF_real_pair:
  "1 \<le> normalCDF_real x + normalCDF_real (- x)
   \<and> normalCDF_real x + normalCDF_real (- x) \<le> 1 + 1 / 1000000000"
proof (cases "x = 0")
  case True
  then show ?thesis by (simp add: normalCDF_real_zero)
next
  case False
  with normalCDF_real_antisym [of x] show ?thesis by simp
qed

lemma raw_parity:
  assumes "0 < s" "0 < k"
  shows "\<bar>callPrice_real s k t r v - putPrice_real s k t r v - (s - k * exp (- r * t))\<bar>
           \<le> (s + k * exp (- r * t)) / 1000000000"
proof -
  define e1 where "e1 = normalCDF_real (d1_real s k t r v) + normalCDF_real (- d1_real s k t r v) - 1"
  define e2 where "e2 = normalCDF_real (d2_real s k t r v) + normalCDF_real (- d2_real s k t r v) - 1"
  define q where "q = k * exp (- r * t)"
  have q: "0 < q" using assms by (simp add: q_def)
  have b1: "0 \<le> e1" "e1 \<le> 1 / 1000000000"
    using normalCDF_real_pair [of "d1_real s k t r v"] by (simp_all add: e1_def)
  have b2: "0 \<le> e2" "e2 \<le> 1 / 1000000000"
    using normalCDF_real_pair [of "d2_real s k t r v"] by (simp_all add: e2_def)
  have eq: "callPrice_real s k t r v - putPrice_real s k t r v - (s - q) = s * e1 - q * e2"
    by (simp add: callPrice_real_def putPrice_real_def e1_def e2_def q_def algebra_simps)
  have "s * e1 \<le> s * (1 / 1000000000)" using b1 assms by (intro mult_left_mono) simp_all
  then have u1: "s * e1 \<le> s / 1000000000" by simp
  have "q * e2 \<le> q * (1 / 1000000000)" using b2 q by (intro mult_left_mono) simp_all
  then have u2: "q * e2 \<le> q / 1000000000" by simp
  have l1: "0 \<le> s * e1" using b1 assms by simp
  have l2: "0 \<le> q * e2" using b2 q by simp
  define a where "a = s * e1"
  define b where "b = q * e2"
  have "\<bar>a - b\<bar> \<le> s / 1000000000 + q / 1000000000"
    using u1 u2 l1 l2 assms(1) q unfolding a_def [symmetric] b_def [symmetric] by linarith
  then have "\<bar>s * e1 - q * e2\<bar> \<le> (s + q) / 1000000000"
    by (simp add: a_def b_def add_divide_distrib)
  with eq show ?thesis by (simp add: q_def)
qed

section \<open>The price grid\<close>

lemma generatePriceRange_Num:
  assumes "0 < n"
  shows "generatePriceRange (Num c) (Num f) n =
     map (\<lambda>i. Num (roundTo_real 100
            (c * (1 - f) + real i * ((c * (1 + f) - c * (1 - f)) / real n))))
         [0 ..< n + 1]"
  using assms
  by (simp add: generatePriceRange_def Let_def js_sub_Num roundTo_Num del: upt_Suc)





section \<open>The solver's loop\<close>

lemma js_eq_mul_100: "js_eq (js_mul a (Num 100)) (Num 0) = js_eq a (Num 0)"
  by (cases a) simp_all

lemma calculateGreeks_Inr: "\<exists>g. calculateGreeks S K T r sigma ot = Inr g"
  by (simp add: calculateGreeks_def Let_def split: prod.split)

lemma ivBody_converged:
  "ivConverged op S K T r ot tol sigma \<Longrightarrow>
   ivBody op S K T r ot tol sigma = Inr (Return (roundTo 10000 sigma))"
  by (auto simp: ivConverged_def ivBody_def Let_def split: sum.splits)

lemma ivBody_vegaZero:
  "\<not> ivConverged op S K T r ot tol sigma \<Longrightarrow> ivVegaZero S K T r ot sigma \<Longrightarrow>
   ivBody op S K T r ot tol sigma = Inr Break"
  by (auto simp: ivConverged_def ivVegaZero_def ivBody_def Let_def js_eq_mul_100
           split: sum.splits)

lemma ivBody_next:
  "\<not> ivConverged op S K T r ot tol sigma \<Longrightarrow> \<not> ivVegaZero S K T r ot sigma \<Longrightarrow>
   ivBody op S K T r ot tol sigma = Inr (Next (newtonUpdate op S K T r ot sigma))"
  using calculateGreeks_Inr [of S K T r sigma ot]
  by (auto simp: ivConverged_def ivVegaZero_def ivBody_def newtonUpdate_def clampSigma_def
                 Let_def js_eq_mul_100 split: sum.splits)

lemma ivLoop_stop:
  "j < n \<Longrightarrow>
   (\<forall>i<j. \<not> ivConverged op S K T r ot tol ((newtonUpdate op S K T r ot ^^ i) s0)
          \<and> \<not> ivVegaZero S K T r ot ((newtonUpdate op S K T r ot ^^ i) s0)) \<Longrightarrow>
   ivConverged op S K T r ot tol ((newtonUpdate op S K T r ot ^^ j) s0)
     \<or> ivVegaZero S K T r ot ((newtonUpdate op S K T r ot ^^ j) s0) \<Longrightarrow>
   ivLoop op S K T r ot tol n s0 = Inr (roundTo 10000 ((newtonUpdate op S K T r ot ^^ j) s0))"
proof (induction n arbitrary: j s0)
  case 0
  then show ?case by simp
next
  case (Suc n)
  show ?case
  proof (cases j)
    case 0
    with Suc.prems(3) show ?thesis
      by (cases "ivConverged op S K T r ot tol s0")
         (simp_all add: ivBody_converged ivBody_vegaZero)
  next
    case (Suc j')
    from Suc.prems(2) Suc have ns: "\<not> ivConverged op S K T r ot tol s0"
      "\<not> ivVegaZero S K T r ot s0"
      by (auto dest: spec [of _ 0])
    have "ivLoop op S K T r ot tol n (newtonUpdate op S K T r ot s0) =
            Inr (roundTo 10000
              ((newtonUpdate op S K T r ot ^^ j') (newtonUpdate op S K T r ot s0)))"
    proof (rule Suc.IH)
      show "j' < n" using Suc.prems(1) Suc by simp
      show "\<forall>i<j'. \<not> ivConverged op S K T r ot tol
                        ((newtonUpdate op S K T r ot ^^ i) (newtonUpdate op S K T r ot s0))
                  \<and> \<not> ivVegaZero S K T r ot
                        ((newtonUpdate op S K T r ot ^^ i) (newtonUpdate op S K T r ot s0))"
      proof (intro allI impI)
        fix i assume "i < j'"
        then have "Suc i < j" using Suc by simp
        with Suc.prems(2) show "\<not> ivConverged op S K T r ot tol
                        ((newtonUpdate op S K T r ot ^^ i) (newtonUpdate op S K T r ot s0))
                  \<and> \<not> ivVegaZero S K T r ot
                        ((newtonUpdate op S K T r ot ^^ i) (newtonUpdate op S K T r ot s0))"
          by (metis funpow_Suc_right o_apply)
      qed
      show "ivConverged op S K T r ot tol
              ((newtonUpdate op S K T r ot ^^ j') (newtonUpdate op S K T r ot s0))
            \<or> ivVegaZero S K T r ot
              ((newtonUpdate op S K T r ot ^^ j') (newtonUpdate op S K T r ot s0))"
        using Suc.prems(3) Suc by (simp add: funpow_swap1)
    qed
    with ns Suc show ?thesis
      by (simp add: ivBody_next funpow_swap1)
  qed
qed

lemma ivLoop_exhaust:
  "(\<forall>i<n. \<not> ivConverged op S K T r ot tol ((newtonUpdate op S K T r ot ^^ i) s0)
          \<and> \<not> ivVegaZero S K T r ot ((newtonUpdate op S K T r ot ^^ i) s0)) \<Longrightarrow>
   ivLoop op S K T r ot tol n s0 = Inr (roundTo 10000 ((newtonUpdate op S K T r ot ^^ n) s0))"
proof (induction n arbitrary: s0)
  case 0
  then show ?case by simp
next
  case (Suc n)
  from Suc.prems have ns: "\<not> ivConverged op S K T r ot tol s0"
      "\<not> ivVegaZero S K T r ot s0"
    by (auto dest: spec [of _ 0])
  have "ivLoop op S K T r ot tol n (newtonUpdate op S K T r ot s0) =
          Inr (roundTo 10000
             ((newtonUpdate op S K T r ot ^^ n) (newtonUpdate op S K T r ot s0)))"
  proof (rule Suc.IH, intro allI impI)
    fix i assume "i < n"
    then have "Suc i < Suc n" by simp
    with Suc.prems show "\<not> ivConverged op S K T r ot tol
                        ((newtonUpdate op S K T r ot ^^ i) (newtonUpdate op S K T r ot s0))
                  \<and> \<not> ivVegaZero S K T r ot
                        ((newtonUpdate op S K T r ot ^^ i) (newtonUpdate op S K T r ot s0))"
      by (metis funpow_Suc_right o_apply)
  qed
  with ns show ?case
    by (simp add: ivBody_next funpow_swap1)
qed

lemma ivLoop_Inr: "\<exists>v. ivLoop op S K T r ot tol n s0 = Inr v"
proof (induction n arbitrary: s0)
  case 0
  then show ?case by simp
next
  case (Suc n)
  consider "ivConverged op S K T r ot tol s0"
    | "\<not> ivConverged op S K T r ot tol s0" "ivVegaZero S K T r ot s0"
    | "\<not> ivConverged op S K T r ot tol s0" "\<not> ivVegaZero S K T r ot s0"
    by blast
  then show ?case
  proof cases
    case 1
    then show ?thesis by (simp add: ivBody_converged)
  next
    case 2
    then show ?thesis by (simp add: ivBody_vegaZero)
  next
    case 3
    then show ?thesis using Suc.IH by (simp add: ivBody_next)
  qed
qed

text \<open>
  Claim C7.  Let \<open>sigma_i\<close> be the volatility after \<open>i\<close> updates.  If the first
  iteration \<open>j < maxIterations\<close> at which the price difference is below the tolerance
  or the vega output is 0 exists, the solver returns \<open>sigma_j\<close> rounded to 4
  decimals; if there is none, it returns \<open>sigma_maxIterations\<close>, the last value,
  rounded to 4 decimals.  In every case the result is a value, never an error.
\<close>

theorem calculateImpliedVolatility_result:
  "(j < maxIterations
      \<and> (\<forall>i<j. \<not> ivStops op S K T r ot tol (ivSigmaAt op S K T r ot i))
      \<and> ivStops op S K T r ot tol (ivSigmaAt op S K T r ot j)
    \<longrightarrow> calculateImpliedVolatility op S K T r ot maxIterations tol
          = Inr (roundTo 10000 (ivSigmaAt op S K T r ot j)))
   \<and> ((\<forall>i<maxIterations. \<not> ivStops op S K T r ot tol (ivSigmaAt op S K T r ot i))
    \<longrightarrow> calculateImpliedVolatility op S K T r ot maxIterations tol
          = Inr (roundTo 10000 (ivSigmaAt op S K T r ot maxIterations)))
   \<and> (\<exists>v. calculateImpliedVolatility op S K T r ot maxIterations tol = Inr v)"
  unfolding calculateImpliedVolatility_def ivStops_def ivSigmaAt_def
  using ivLoop_stop [of j maxIterations op S K T r ot tol "Num 0.2"]
        ivLoop_exhaust [of maxIterations op S K T r ot tol "Num 0.2"]
        ivLoop_Inr [of op S K T r ot tol maxIterations "Num 0.2"]
  by blast

section \<open>One Newton step, evaluated\<close>

text \<open>An at-the-money call with spot and strike 3.5, two years to expiry, rate 0 and
  the initial volatility 0.2.  Then \<open>d1 = sqrt 2 / 10\<close> and \<open>d2 = - d1\<close>, the argument
  of the polynomial is the rational \<open>1 / 1.03275911\<close>, and the only transcendental
  numbers left are \<open>exp (-0.01)\<close> and \<open>sqrt pi\<close>.  The kernel returns the price 0.39
  and the vega 0.02.\<close>

lemma exp_m001_bounds: "99 / 100 \<le> exp (- (1 / 100) :: real)" "exp (- (1 / 100) :: real) \<le> 100 / 101"
proof -
  show "99 / 100 \<le> exp (- (1 / 100) :: real)"
    using exp_ge_add_one_self [of "- (1 / 100) :: real"] by simp
  have "(101 / 100 :: real) \<le> exp (1 / 100)"
    using exp_ge_add_one_self [of "1 / 100 :: real"] by simp
  then have "inverse (exp (1 / 100 :: real)) \<le> inverse (101 / 100)"
    by (intro le_imp_inverse_le) simp_all
  then show "exp (- (1 / 100) :: real) \<le> 100 / 101"
    by (simp add: exp_minus)
qed

lemma cdfPoly_example:
  "8964 / 10000 \<le> cdfPoly (1 / (1 + 0.3275911 * (1 / 10)))"
  "cdfPoly (1 / (1 + 0.3275911 * (1 / 10))) \<le> 8965 / 10000"
  by (simp_all add: cdfPoly_def)

lemma erfApprox_example:
  "1123 / 10000 \<le> erfApprox (1 / 10)" "erfApprox (1 / 10) \<le> 1126 / 10000"
proof -
  define q where "q = cdfPoly (1 / (1 + 0.3275911 * (1 / 10)))"
  define e :: real where "e = exp (- (1 / 100))"
  have q: "8964 / 10000 \<le> q" "q \<le> 8965 / 10000"
    using cdfPoly_example by (simp_all add: q_def)
  have e: "99 / 100 \<le> e" "e \<le> 100 / 101"
    using exp_m001_bounds by (simp_all add: e_def)
  have E: "erfApprox (1 / 10) = 1 - q * e"
    by (simp add: erfApprox_def q_def e_def power2_eq_square)
  have "q * e \<le> (8965 / 10000) * (100 / 101)"
    using q e by (intro mult_mono) simp_all
  moreover have "(8964 / 10000) * (99 / 100) \<le> q * e"
    using q e by (intro mult_mono) simp_all
  ultimately show "1123 / 10000 \<le> erfApprox (1 / 10)" "erfApprox (1 / 10) \<le> 1126 / 10000"
    unfolding E by simp_all
qed

lemma sqrt2_bounds: "141 / 100 \<le> sqrt 2" "sqrt 2 \<le> 142 / 100"
  by (rule real_le_rsqrt, simp add: power2_eq_square)
     (rule real_le_lsqrt, simp_all add: power2_eq_square)

lemma d1_example: "d1_real (7 / 2) (7 / 2) 2 0 (1 / 5) = sqrt 2 / 10"
proof -
  have "sqrt 2 * sqrt 2 = 2" by simp
  then show ?thesis
    by (simp add: d1_real_def field_simps)
qed

lemma d2_example: "d2_real (7 / 2) (7 / 2) 2 0 (1 / 5) = - (sqrt 2 / 10)"
  by (simp add: d2_real_def d1_example)

lemma callPrice_example: "callPrice_real (7 / 2) (7 / 2) 2 0 (1 / 5) = 7 / 2 * erfApprox (1 / 10)"
  by (simp add: callPrice_real_def d1_example d2_example normalCDF_real_def field_simps)

lemma price_example: "roundTo_real 100 (callPrice_real (7 / 2) (7 / 2) 2 0 (1 / 5)) = 39 / 100"
proof -
  have "\<lfloor>7 / 2 * erfApprox (1 / 10) * 100 + 1 / 2\<rfloor> = 39"
    using erfApprox_example by (intro floor_unique) simp_all
  then show ?thesis
    by (simp add: roundTo_real_def callPrice_example)
qed

lemma vega_example_eq:
  "vega_real (7 / 2) (7 / 2) 2 0 (1 / 5) * 100 = 7 / 2 * exp (- (1 / 100)) / sqrt pi"
proof -
  have "sqrt 2 * sqrt 2 = 2" by simp
  then have "- (1 / 2) * (sqrt 2 / 10) * (sqrt 2 / 10) = - (1 / 100)"
    by simp
  then show ?thesis
    by (simp add: vega_real_def normalPDF_real_def d1_example real_sqrt_mult)
qed

lemma vega_example: "roundTo_real 100 (vega_real (7 / 2) (7 / 2) 2 0 (1 / 5)) = 2 / 100"
proof -
  define e :: real where "e = exp (- (1 / 100))"
  define w :: real where "w = sqrt pi"
  have e: "99 / 100 \<le> e" "e \<le> 100 / 101"
    using exp_m001_bounds by (simp_all add: e_def)
  have "sqrt 2 \<le> sqrt pi" using pi_ge_two by (intro real_sqrt_le_mono)
  then have w1: "141 / 100 \<le> w" using sqrt2_bounds(1) unfolding w_def by linarith
  have "sqrt pi \<le> sqrt 4" using pi_less_4 by (intro real_sqrt_le_mono) simp
  then have w2: "w \<le> 2" by (simp add: w_def)
  have w0: "0 < w" using w1 by simp
  have lo: "3 / 2 \<le> 7 / 2 * e / w"
    using w0 e w2 by (simp add: pos_le_divide_eq)
  have hi: "7 / 2 * e / w < 5 / 2"
    using w0 e w1 by (simp add: pos_divide_less_eq)
  have "\<lfloor>vega_real (7 / 2) (7 / 2) 2 0 (1 / 5) * 100 + 1 / 2\<rfloor> = 2"
    unfolding vega_example_eq e_def [symmetric] w_def [symmetric]
    using lo hi by (intro floor_unique) simp_all
  then show ?thesis
    by (simp add: roundTo_real_def)
qed

lemma greeks_example:
  "\<exists>g. calculateGreeks (Num (7 / 2)) (Num (7 / 2)) (Num 2) (Num 0) (Num (1 / 5)) ''call'' = Inr g
        \<and> price g = Num (39 / 100) \<and> vega g = Num (1 / 50)"
  using calculateGreeks_Num [of "7 / 2" "7 / 2" 2 "1 / 5" 0 "''call''"]
  by (simp add: price_example vega_example)

lemma ivBody_example:
  "ivBody (Num (1 / 200)) (Num (7 / 2)) (Num (7 / 2)) (Num 2) (Num 0) ''call''
     (Num (1 / 10000)) (Num (1 / 5)) = Inr (Next (Num (3 / 400)))"
  using greeks_example
  by (auto simp: ivBody_def Let_def js_sub_Num js_le_def js_gt_def)

lemma newtonUpdate_example:
  "newtonUpdate (Num (1 / 200)) (Num (7 / 2)) (Num (7 / 2)) (Num 2) (Num 0) ''call''
     (Num (1 / 5)) = Num (3 / 400)"
  using greeks_example
  by (auto simp: newtonUpdate_def clampSigma_def Let_def js_sub_Num js_le_def js_gt_def)

lemma ivStops_example:
  "\<not> ivStops (Num (1 / 200)) (Num (7 / 2)) (Num (7 / 2)) (Num 2) (Num 0) ''call''
       (Num (1 / 10000)) (Num (1 / 5))"
  using greeks_example
  by (auto simp: ivStops_def ivConverged_def ivVegaZero_def js_sub_Num)

text \<open>Convergence in the first iteration, a zero vega in the first iteration (both
  on an expired option), and one iteration allowed on the option above.\<close>

theorem calculateImpliedVolatility_result_witness:
  "calculateImpliedVolatility (Num 10) (Num 110) (Num 100) (Num 0) (Num 0.05) ''call'' 100
       (Num 0.0001) = Inr (Num 0.2)
   \<and> calculateImpliedVolatility (Num 5) (Num 110) (Num 100) (Num 0) (Num 0.05) ''call'' 100
       (Num 0.0001) = Inr (Num 0.2)
   \<and> calculateImpliedVolatility (Num 0.005) (Num 3.5) (Num 3.5) (Num 2) (Num 0) ''call'' 1
       (Num 0.0001) = Inr (Num 0.0075)"
proof -
  have a: "ivStops (Num 10) (Num 110) (Num 100) (Num 0) (Num 0.05) ''call'' (Num 0.0001)
             (ivSigmaAt (Num 10) (Num 110) (Num 100) (Num 0) (Num 0.05) ''call'' 0)"
    by (simp add: ivStops_def ivConverged_def ivSigmaAt_def calculateGreeks_def js_le_def
          js_sub_Num js_max_Num)
  have b: "ivStops (Num 5) (Num 110) (Num 100) (Num 0) (Num 0.05) ''call'' (Num 0.0001)
             (ivSigmaAt (Num 5) (Num 110) (Num 100) (Num 0) (Num 0.05) ''call'' 0)"
    by (simp add: ivStops_def ivVegaZero_def ivSigmaAt_def calculateGreeks_def js_le_def)
  have c: "\<forall>i<1. \<not> ivStops (Num 0.005) (Num 3.5) (Num 3.5) (Num 2) (Num 0) ''call''
              (Num 0.0001)
              (ivSigmaAt (Num 0.005) (Num 3.5) (Num 3.5) (Num 2) (Num 0) ''call'' i)"
    using ivStops_example by (simp add: ivSigmaAt_def)
  have s1: "ivSigmaAt (Num 0.005) (Num 3.5) (Num 3.5) (Num 2) (Num 0) ''call'' 1 = Num 0.0075"
    using newtonUpdate_example by (simp add: ivSigmaAt_def)
  from a calculateImpliedVolatility_result
           [of 0 100 "Num 10" "Num 110" "Num 100" "Num 0" "Num 0.05" "''call''" "Num 0.0001"]
  have 1: "calculateImpliedVolatility (Num 10) (Num 110) (Num 100) (Num 0) (Num 0.05) ''call'' 100
       (Num 0.0001) = Inr (Num 0.2)"
    by (simp add: ivSigmaAt_def roundTo_def)
  from b calculateImpliedVolatility_result
           [of 0 100 "Num 5" "Num 110" "Num 100" "Num 0" "Num 0.05" "''call''" "Num 0.0001"]
  have 2: "calculateImpliedVolatility (Num 5) (Num 110) (Num 100) (Num 0) (Num 0.05) ''call'' 100
       (Num 0.0001) = Inr (Num 0.2)"
    by (simp add: ivSigmaAt_def roundTo_def)
  from c s1 calculateImpliedVolatility_result
           [of 0 1 "Num 0.005" "Num 3.5" "Num 3.5" "Num 2" "Num 0" "''call''" "Num 0.0001"]
  have 3: "calculateImpliedVolatility (Num 0.005) (Num 3.5) (Num 3.5) (Num 2) (Num 0) ''call'' 1
       (Num 0.0001) = Inr (Num 0.0075)"
    by (simp add: roundTo_def)
  from 1 2 3 show ?thesis by simp
qed

section \<open>The range of the volatility\<close>

lemma clampSigma_range:
  "clampSigma a = NaN \<and> a = NaN \<or> (\<exists>x. clampSigma a = Num x \<and> 0 < x \<and> x \<le> 5)"
  by (cases a) (auto simp: clampSigma_def Let_def js_le_def js_gt_def intro: exI [of _ "1 / 100"])

lemma ivBody_Next_clamped:
  "ivBody op S K T r ot tol sigma = Inr (Next s') \<Longrightarrow>
   \<exists>g. calculateGreeks S K T r sigma ot = Inr g
     \<and> s' = clampSigma
               (js_sub sigma (js_div (js_sub (price g) op) (js_mul (vega g) (Num 100))))"
  by (auto simp: ivBody_def clampSigma_def Let_def split: sum.splits if_splits)

lemma clampSigma_cases:
  "clampSigma a =
     (if js_le a (Num 0) then Num 0.01 else if js_gt a (Num 5) then Num 5 else a)"
  by (simp add: clampSigma_def Let_def js_gt_def)

lemma ivBody_Next_range:
  "ivBody op S K T r ot tol sigma = Inr (Next s') \<Longrightarrow>
   s' = NaN \<or> (\<exists>v. s' = Num v \<and> 0 < v \<and> v \<le> 5)"
  using clampSigma_range by (auto dest!: ivBody_Next_clamped)

lemma ivSigmas_later:
  "x \<in> set (ivSigmas op S K T r ot tol n s0) \<Longrightarrow>
   x = s0 \<or> x = NaN \<or> (\<exists>v. x = Num v \<and> 0 < v \<and> v \<le> 5)"
proof (induction n arbitrary: s0)
  case 0
  then show ?case by simp
next
  case (Suc n)
  show ?case
  proof (cases "x = s0")
    case True
    then show ?thesis by simp
  next
    case False
    with Suc.prems have "\<exists>s'. ivBody op S K T r ot tol s0 = Inr (Next s')
        \<and> x \<in> set (ivSigmas op S K T r ot tol n s')"
      by (simp split: sum.splits ivStep.splits) metis
    then obtain s' where b: "ivBody op S K T r ot tol s0 = Inr (Next s')"
      and x: "x \<in> set (ivSigmas op S K T r ot tol n s')" by blast
    from Suc.IH [OF x] ivBody_Next_range [OF b] show ?thesis by auto
  qed
qed

lemma ivSigmas_tl:
  "x \<in> set (tl (ivSigmas op S K T r ot tol n s0)) \<Longrightarrow>
   x = NaN \<or> (\<exists>v. x = Num v \<and> 0 < v \<and> v \<le> 5)"
proof (cases n)
  case 0
  assume "x \<in> set (tl (ivSigmas op S K T r ot tol n s0))"
  with 0 show ?thesis by simp
next
  case (Suc m)
  assume "x \<in> set (tl (ivSigmas op S K T r ot tol n s0))"
  with Suc have "\<exists>s'. ivBody op S K T r ot tol s0 = Inr (Next s')
        \<and> x \<in> set (ivSigmas op S K T r ot tol m s')"
    by (simp split: sum.splits ivStep.splits) metis
  then obtain s' where b: "ivBody op S K T r ot tol s0 = Inr (Next s')"
    and x: "x \<in> set (ivSigmas op S K T r ot tol m s')" by blast
  from ivSigmas_later [OF x] ivBody_Next_range [OF b] show ?thesis by auto
qed

text \<open>
  Claim C3, as amended.  After every update \<open>sigma <- sigma - priceDiff / (vega * 100)\<close>
  a value \<open><= 0\<close> is replaced by 0.01 and a value \<open>> 5\<close> by 5; any other value is
  kept, be it between 0 and 0.01 or NaN, for which both tests are false.  So every
  volatility that the loop passes to \<open>calculateGreeks\<close> after the first is NaN or a
  number in \<open>(0, 5]\<close>.
\<close>

theorem ivSigmas_clamped:
  "(\<forall>x \<in> set (tl (ivSigmas op S K T r ot tol maxIterations (Num 0.2))).
       x = NaN \<or> (\<exists>v. x = Num v \<and> 0 < v \<and> v \<le> 5))
   \<and> (ivBody op S K T r ot tol sigma = Inr (Next s') \<longrightarrow>
       (\<exists>g. calculateGreeks S K T r sigma ot = Inr g
          \<and> s' = (let sigma1 = js_sub sigma
                                 (js_div (js_sub (price g) op) (js_mul (vega g) (Num 100)))
                   in if js_le sigma1 (Num 0) then Num 0.01
                      else if js_gt sigma1 (Num 5) then Num 5 else sigma1)))"
proof (intro conjI ballI impI)
  fix x assume "x \<in> set (tl (ivSigmas op S K T r ot tol maxIterations (Num 0.2)))"
  then show "x = NaN \<or> (\<exists>v. x = Num v \<and> 0 < v \<and> v \<le> 5)" by (rule ivSigmas_tl)
next
  assume "ivBody op S K T r ot tol sigma = Inr (Next s')"
  from ivBody_Next_clamped [OF this] show
    "\<exists>g. calculateGreeks S K T r sigma ot = Inr g
          \<and> s' = (let sigma1 = js_sub sigma
                                 (js_div (js_sub (price g) op) (js_mul (vega g) (Num 100)))
                   in if js_le sigma1 (Num 0) then Num 0.01
                      else if js_gt sigma1 (Num 5) then Num 5 else sigma1)"
    by (auto simp: clampSigma_cases Let_def)
qed

lemma ivSigmas_example:
  "ivSigmas (Num (1 / 200)) (Num (7 / 2)) (Num (7 / 2)) (Num 2) (Num 0) ''call''
     (Num (1 / 10000)) 2 (Num (1 / 5)) = [Num (1 / 5), Num (3 / 400)]"
  by (simp add: numeral_2_eq_2 ivBody_example split: sum.split ivStep.split)

text \<open>The option of the section above: the second volatility passed is 0.0075.\<close>

theorem ivSigmas_clamped_witness:
  "Num (3 / 400) \<in> set (tl (ivSigmas (Num (1 / 200)) (Num (7 / 2)) (Num (7 / 2)) (Num 2)
              (Num 0) ''call'' (Num (1 / 10000)) 2 (Num 0.2)))
   \<and> (\<exists>v. Num (3 / 400) = Num v \<and> 0 < v \<and> v \<le> 5)
   \<and> ivBody (Num (1 / 200)) (Num (7 / 2)) (Num (7 / 2)) (Num 2) (Num 0) ''call''
             (Num (1 / 10000)) (Num (1 / 5)) = Inr (Next (Num (3 / 400)))
   \<and> (\<exists>g. calculateGreeks (Num (7 / 2)) (Num (7 / 2)) (Num 2) (Num 0) (Num (1 / 5)) ''call''
             = Inr g
          \<and> Num (3 / 400) =
              (let sigma1 = js_sub (Num (1 / 5))
                              (js_div (js_sub (price g) (Num (1 / 200)))
                                      (js_mul (vega g) (Num 100)))
               in if js_le sigma1 (Num 0) then Num 0.01
                  else if js_gt sigma1 (Num 5) then Num 5 else sigma1))"
proof -
  have m: "Num (3 / 400) \<in> set (tl (ivSigmas (Num (1 / 200)) (Num (7 / 2)) (Num (7 / 2)) (Num 2)
              (Num 0) ''call'' (Num (1 / 10000)) 2 (Num 0.2)))"
    by (simp add: ivSigmas_example)
  have b: "ivBody (Num (1 / 200)) (Num (7 / 2)) (Num (7 / 2)) (Num 2) (Num 0) ''call''
             (Num (1 / 10000)) (Num (1 / 5)) = Inr (Next (Num (3 / 400)))"
    by (rule ivBody_example)
  note t = ivSigmas_clamped [of "Num (1 / 200)" "Num (7 / 2)" "Num (7 / 2)" "Num 2" "Num 0"
         "''call''" "Num (1 / 10000)" 2 "Num (1 / 5)" "Num (3 / 400)"]
  from t [THEN conjunct1, THEN bspec, OF m]
  have r: "\<exists>v. Num (3 / 400) = Num v \<and> 0 < v \<and> v \<le> 5"
    by simp
  note c = t [THEN conjunct2, THEN mp, OF b]
  show ?thesis
    by (intro conjI) (rule m, rule r, rule b, rule c)
qed

lemma ivSigmas_NaN_example:
  "ivSigmas (Num 5) (Num (- 1)) (Num 90) (Num 1) (Num (1 / 20)) ''call'' (Num (1 / 10000)) 2
     (Num (1 / 5)) = [Num (1 / 5), NaN]"
proof -
  have g: "calculateGreeks (Num (- 1)) (Num 90) (Num 1) (Num (1 / 20)) (Num (1 / 5)) ''call'' =
     Inr \<lparr> price = NaN, delta = NaN, gamma = NaN, theta = NaN, vega = NaN, rho = NaN \<rparr>"
    by (simp add: calculateGreeks_def calculateD1D2_def js_le_def Let_def js_sub_def
          normalCDF_NaN normalPDF_def roundTo_def)
  have b: "ivBody (Num 5) (Num (- 1)) (Num 90) (Num 1) (Num (1 / 20)) ''call'' (Num (1 / 10000))
             (Num (1 / 5)) = Inr (Next NaN)"
    by (simp add: ivBody_def g Let_def js_sub_def js_le_def js_gt_def)
  show ?thesis
    by (simp add: numeral_2_eq_2 b split: sum.split ivStep.split)
qed

text \<open>
  Claim C3 fails for the lower bound 0.01.  For a market price of 0.005 on the option
  above, the first update gives \<open>0.2 - (0.39 - 0.005) / 2 = 0.0075\<close>, which neither
  guard changes, and the second iteration calls the kernel with 0.0075.  And for a
  spot of \<open>-1\<close> the price is NaN, the update is NaN, and the second iteration calls the
  kernel with NaN.
\<close>

theorem clamp_lower_bound_counterexample:
  "ivSigmas (Num 0.005) (Num 3.5) (Num 3.5) (Num 2) (Num 0) ''call'' (Num 0.0001) 2 (Num 0.2)
     = [Num 0.2, Num 0.0075]
   \<and> \<not> js_lt (Num 0.01) (Num 0.0075)
   \<and> ivSigmas (Num 5) (Num (- 1)) (Num 90) (Num 1) (Num 0.05) ''call'' (Num 0.0001) 2 (Num 0.2)
     = [Num 0.2, NaN]"
  by (simp add: ivSigmas_example ivSigmas_NaN_example)

section \<open>The scan of the payoff curve\<close>

lemma isNum_iff: "isNum a \<longleftrightarrow> (\<exists>x. a = Num x)"
  by (cases a) simp_all

lemma calculatePositionPL_finite:
  "finitePosition p \<Longrightarrow> isNum (calculatePositionPL p (Num x) d)"
  by (cases "ptype p = ''stock''")
     (auto simp: finitePosition_def isNum_iff calculatePositionPL_option js_sub_Num js_max_Num
                 calculatePositionPL_def)

lemma foldl_PL_finite:
  "\<forall>p \<in> set ps. finitePosition p \<Longrightarrow> isNum acc \<Longrightarrow>
   isNum (foldl (\<lambda>sum position. js_add sum (calculatePositionPL position (Num x) d)) acc ps)"
proof (induction ps arbitrary: acc)
  case Nil
  then show ?case by simp
next
  case (Cons p ps)
  from Cons.prems have "isNum (calculatePositionPL p (Num x) d)"
    by (simp add: calculatePositionPL_finite)
  with Cons.prems(2) have "isNum (js_add acc (calculatePositionPL p (Num x) d))"
    by (auto simp: isNum_iff)
  with Cons show ?case by simp
qed

lemma totalPL_finite:
  "\<forall>p \<in> set ps. finitePosition p \<Longrightarrow> isNum (totalPL ps (Num x) d)"
  unfolding totalPL_def by (rule foldl_PL_finite) simp_all

lemma calculateStrategyPL_totalPL:
  "calculateStrategyPL positions priceRange d =
     Inr (map (\<lambda>p. \<lparr> pprice = p, pl = roundTo 100 (totalPL positions p d) \<rparr>) priceRange)"
  by (simp add: calculateStrategyPL_def totalPL_def Let_def)

lemma roundTo_real_idem: "roundTo_real 100 (roundTo_real 100 x) = roundTo_real 100 x"
proof -
  have "\<lfloor>of_int \<lfloor>x * 100 + 1 / 2\<rfloor> / 100 * 100 + (1 / 2 :: real)\<rfloor> = \<lfloor>x * 100 + 1 / 2\<rfloor>"
    by (rule floor_unique) simp_all
  then show ?thesis by (simp add: roundTo_real_def)
qed

lemma roundTo_real_mono: "x \<le> y \<Longrightarrow> roundTo_real 100 x \<le> roundTo_real 100 y"
  by (simp add: roundTo_real_def divide_right_mono floor_mono)

lemma roundTo_real_int: "roundTo_real 100 (of_int n) = of_int n"
proof -
  have "\<lfloor>of_int n * 100 + (1 / 2 :: real)\<rfloor> = n * 100"
    by (rule floor_unique) simp_all
  then show ?thesis by (simp add: roundTo_real_def)
qed

text \<open>The state of the scanning loop after the points of index \<open>0\<close> to \<open>k\<close>.\<close>

lemma scan_prefix:
  assumes fin: "\<forall>q \<in> set pts. isNum (pl q)"
  shows "k < length pts \<Longrightarrow>
     \<exists>hi lo bs. foldl (scanStep pts) (NInf, PInf, []) [0 ..< Suc k] = (Num hi, Num lo, bs)
       \<and> (\<exists>i\<le>k. pl (pts ! i) = Num hi) \<and> (\<exists>i\<le>k. pl (pts ! i) = Num lo)
       \<and> (\<forall>i\<le>k. \<exists>y. pl (pts ! i) = Num y \<and> lo \<le> y \<and> y \<le> hi)"
proof (induction k)
  case 0
  then have "isNum (pl (pts ! 0))" using fin by simp
  then obtain y where y: "pl (pts ! 0) = Num y" by (auto simp: isNum_iff)
  then have "foldl (scanStep pts) (NInf, PInf, []) [0 ..< Suc 0] = (Num y, Num y, [])"
    by (simp add: scanStep_def js_gt_def Let_def)
  with y show ?case by auto
next
  case (Suc k)
  then obtain hi lo bs where st:
      "foldl (scanStep pts) (NInf, PInf, []) [0 ..< Suc k] = (Num hi, Num lo, bs)"
    and hi: "\<exists>i\<le>k. pl (pts ! i) = Num hi" and lo: "\<exists>i\<le>k. pl (pts ! i) = Num lo"
    and all: "\<forall>i\<le>k. \<exists>y. pl (pts ! i) = Num y \<and> lo \<le> y \<and> y \<le> hi"
    by auto
  from Suc.prems fin have "isNum (pl (pts ! Suc k))" by simp
  then obtain y where y: "pl (pts ! Suc k) = Num y" by (auto simp: isNum_iff)
  have lohi: "lo \<le> hi" using all by force
  have step: "\<exists>bs'. foldl (scanStep pts) (NInf, PInf, []) [0 ..< Suc (Suc k)]
                = (Num (max hi y), Num (min lo y), bs')"
    using st y by (auto simp: scanStep_def js_gt_def Let_def max_def min_def)
  have h1: "\<exists>i\<le>Suc k. pl (pts ! i) = Num (max hi y)"
  proof (cases "hi \<le> y")
    case True
    with y show ?thesis by (auto simp: max_def)
  next
    case False
    with hi show ?thesis by (auto simp: max_def intro: le_SucI)
  qed
  have h2: "\<exists>i\<le>Suc k. pl (pts ! i) = Num (min lo y)"
  proof (cases "lo \<le> y")
    case True
    with lo show ?thesis by (auto simp: min_def intro: le_SucI)
  next
    case False
    with y show ?thesis by (auto simp: min_def)
  qed
  have h3: "\<forall>i\<le>Suc k. \<exists>z. pl (pts ! i) = Num z \<and> min lo y \<le> z \<and> z \<le> max hi y"
  proof (intro allI impI)
    fix i assume "i \<le> Suc k"
    then consider "i \<le> k" | "i = Suc k" by linarith
    then show "\<exists>z. pl (pts ! i) = Num z \<and> min lo y \<le> z \<and> z \<le> max hi y"
    proof cases
      case 1
      with all obtain z where "pl (pts ! i) = Num z" "lo \<le> z" "z \<le> hi" by blast
      then show ?thesis by (auto simp: min_def max_def)
    next
      case 2
      with y show ?thesis by (auto simp: min_def max_def)
    qed
  qed
  from step h1 h2 h3 show ?case by blast
qed

lemma scanPL_extremes:
  assumes fin: "\<forall>q \<in> set pts. isNum (pl q)" and ne: "pts \<noteq> []"
  shows "\<exists>hi lo bs. scanPL pts = (Num hi, Num lo, bs)
       \<and> Num hi \<in> pl ` set pts \<and> Num lo \<in> pl ` set pts
       \<and> (\<forall>q \<in> set pts. \<exists>y. pl q = Num y \<and> lo \<le> y \<and> y \<le> hi)"
proof -
  from ne obtain k where k: "length pts = Suc k" by (cases pts) auto
  then have "k < length pts" by simp
  from scan_prefix [OF fin this] obtain hi lo bs where
    st: "foldl (scanStep pts) (NInf, PInf, []) [0 ..< Suc k] = (Num hi, Num lo, bs)"
    and hi: "\<exists>i\<le>k. pl (pts ! i) = Num hi" and lo: "\<exists>i\<le>k. pl (pts ! i) = Num lo"
    and all: "\<forall>i\<le>k. \<exists>y. pl (pts ! i) = Num y \<and> lo \<le> y \<and> y \<le> hi"
    by blast
  have 1: "scanPL pts = (Num hi, Num lo, bs)" using st k by (simp add: scanPL_def)
  from hi k have 2: "Num hi \<in> pl ` set pts"
    by (metis image_eqI le_imp_less_Suc nth_mem)
  from lo k have 3: "Num lo \<in> pl ` set pts"
    by (metis image_eqI le_imp_less_Suc nth_mem)
  have 4: "\<forall>q \<in> set pts. \<exists>y. pl q = Num y \<and> lo \<le> y \<and> y \<le> hi"
  proof
    fix q assume "q \<in> set pts"
    then obtain i where "i < length pts" "pts ! i = q" by (auto simp: in_set_conv_nth)
    with k all show "\<exists>y. pl q = Num y \<and> lo \<le> y \<and> y \<le> hi" by auto
  qed
  from 1 2 3 4 show ?thesis by blast
qed

lemma generatePriceRange_100:
  "generatePriceRange (Num s) (Num 0.3) 100 =
     map (\<lambda>i. Num (roundTo_real 100
            (s * (1 - 0.3) + real i * ((s * (1 + 0.3) - s * (1 - 0.3)) / real 100))))
         [0 ..< 100 + 1]"
  using generatePriceRange_Num [of 100 s "0.3"] by simp

lemma grid_points_finite:
  "p \<in> set (generatePriceRange (Num s) (Num 0.3) 100) \<Longrightarrow> \<exists>x. p = Num x"
  unfolding generatePriceRange_100 by auto

lemma analyzeStrategy_finite:
  assumes fin: "\<forall>p \<in> set positions. finitePosition p"
  shows "\<exists>hi lo bs pts.
     pts = map (\<lambda>p. \<lparr> pprice = p, pl = roundTo 100 (totalPL positions p e) \<rparr>)
               (generatePriceRange (Num s) (Num 0.3) 100)
     \<and> analyzeStrategy positions (Num s) e =
         Inr \<lparr> maxProfit = Value (Num hi), maxLoss = Value (Num lo),
               breakevenPoints = map (roundTo 100) bs,
               netPremium = roundTo 100
                 (foldl (\<lambda>sum pos.
                          if ptype pos = ''option''
                          then js_add sum (js_mul (js_mul (premium pos) (quantity pos)) (Num 100))
                          else sum)
                       (Num 0) positions),
               plData = pts \<rparr>
     \<and> Num hi \<in> pl ` set pts \<and> Num lo \<in> pl ` set pts
     \<and> (\<forall>q \<in> set pts. \<exists>y. pl q = Num y \<and> lo \<le> y \<and> y \<le> hi)"
proof -
  define pts where
    "pts = map (\<lambda>p. \<lparr> pprice = p, pl = roundTo 100 (totalPL positions p e) \<rparr>)
               (generatePriceRange (Num s) (Num 0.3) 100)"
  have rounded: "\<exists>t. pl q = Num (roundTo_real 100 t)" if "q \<in> set pts" for q
  proof -
    from that obtain p where p: "p \<in> set (generatePriceRange (Num s) (Num 0.3) 100)"
      and q: "pl q = roundTo 100 (totalPL positions p e)"
      by (auto simp: pts_def)
    from grid_points_finite [OF p] obtain x where "p = Num x" by blast
    with totalPL_finite [OF fin, of x e] obtain t where "totalPL positions p e = Num t"
      by (auto simp: isNum_iff)
    with q show ?thesis by (auto simp: roundTo_Num)
  qed
  then have fin_pts: "\<forall>q \<in> set pts. isNum (pl q)"
    by (auto simp: isNum_iff)
  have "length pts = 101"
    by (simp add: pts_def generatePriceRange_def Let_def del: upt_Suc)
  then have ne: "pts \<noteq> []" by auto
  from scanPL_extremes [OF fin_pts ne] obtain hi lo bs where
    scan: "scanPL pts = (Num hi, Num lo, bs)"
    and hi: "Num hi \<in> pl ` set pts" and lo: "Num lo \<in> pl ` set pts"
    and all: "\<forall>q \<in> set pts. \<exists>y. pl q = Num y \<and> lo \<le> y \<and> y \<le> hi"
    by blast
  have idem: "roundTo 100 (Num v) = Num v" if "Num v \<in> pl ` set pts" for v
  proof -
    from that rounded obtain t where "Num v = Num (roundTo_real 100 t)" by force
    then show ?thesis by (simp add: roundTo_Num roundTo_real_idem)
  qed
  note rhi = idem [OF hi] and rlo = idem [OF lo]
  have "calculateStrategyPL positions (generatePriceRange (Num s) (Num 0.3) 100) e = Inr pts"
    by (simp add: calculateStrategyPL_totalPL pts_def)
  then have "analyzeStrategy positions (Num s) e =
         Inr \<lparr> maxProfit = Value (Num hi), maxLoss = Value (Num lo),
               breakevenPoints = map (roundTo 100) bs,
               netPremium = roundTo 100
                 (foldl (\<lambda>sum pos.
                          if ptype pos = ''option''
                          then js_add sum (js_mul (js_mul (premium pos) (quantity pos)) (Num 100))
                          else sum)
                       (Num 0) positions),
               plData = pts \<rparr>"
    by (simp add: analyzeStrategy_def Let_def scan rhi rlo)
  with hi lo all pts_def show ?thesis by blast
qed

section \<open>The extremes reported by the analyzer\<close>

lemma js_lt_trans: "js_lt a b \<Longrightarrow> js_lt b c \<Longrightarrow> js_lt a c"
  by (cases a; cases b; cases c) simp_all

lemma js_lt_irrefl: "\<not> js_lt a a"
  by (cases a) simp_all

lemma js_eq_PInf: "js_eq a PInf \<longleftrightarrow> a = PInf"
  by (cases a) simp_all

lemma js_eq_NInf: "js_eq a NInf \<longleftrightarrow> a = NInf"
  by (cases a) simp_all

lemma scanStep_extremes:
  "scanStep pts (mx, mn, bs) i = (mx', mn', bs') \<Longrightarrow>
   mx' = (if js_lt mx (pl (pts ! i)) then pl (pts ! i) else mx)
   \<and> mn' = (if js_lt (pl (pts ! i)) mn then pl (pts ! i) else mn)"
  by (auto simp: scanStep_def Let_def js_gt_def split: if_splits)

lemma scan_invariant:
  "k \<le> length pts \<Longrightarrow>
   foldl (scanStep pts) (NInf, PInf, []) [0 ..< k] = (mx, mn, bs) \<Longrightarrow>
   (mx = NInf \<or> (\<exists>i<k. pl (pts ! i) = mx)) \<and> (\<forall>i<k. \<not> js_lt mx (pl (pts ! i)))
   \<and> (mn = PInf \<or> (\<exists>i<k. pl (pts ! i) = mn)) \<and> (\<forall>i<k. \<not> js_lt (pl (pts ! i)) mn)"
proof (induction k arbitrary: mx mn bs)
  case 0
  then show ?case by simp
next
  case (Suc k)
  obtain mx0 mn0 bs0 where st: "foldl (scanStep pts) (NInf, PInf, []) [0 ..< k] = (mx0, mn0, bs0)"
    by (metis prod_cases3)
  from Suc.prems(1) have "k \<le> length pts" by simp
  from Suc.IH [OF this st] have
    a0: "mx0 = NInf \<or> (\<exists>i<k. pl (pts ! i) = mx0)"
    and u0: "\<forall>i<k. \<not> js_lt mx0 (pl (pts ! i))"
    and b0: "mn0 = PInf \<or> (\<exists>i<k. pl (pts ! i) = mn0)"
    and l0: "\<forall>i<k. \<not> js_lt (pl (pts ! i)) mn0"
    by blast+
  from Suc.prems(2) st have "scanStep pts (mx0, mn0, bs0) k = (mx, mn, bs)" by simp
  from scanStep_extremes [OF this]
  have mx: "mx = (if js_lt mx0 (pl (pts ! k)) then pl (pts ! k) else mx0)"
    and mn: "mn = (if js_lt (pl (pts ! k)) mn0 then pl (pts ! k) else mn0)"
    by blast+
  have 1: "mx = NInf \<or> (\<exists>i<Suc k. pl (pts ! i) = mx)"
    using a0 mx by (auto intro: less_SucI)
  have 2: "\<forall>i<Suc k. \<not> js_lt mx (pl (pts ! i))"
  proof (intro allI impI)
    fix i assume "i < Suc k"
    then consider "i < k" | "i = k" by linarith
    then show "\<not> js_lt mx (pl (pts ! i))"
    proof cases
      case 1
      with u0 have "\<not> js_lt mx0 (pl (pts ! i))" by blast
      then show ?thesis using mx by (auto dest: js_lt_trans)
    next
      case 2
      then show ?thesis using mx by (auto simp: js_lt_irrefl)
    qed
  qed
  have 3: "mn = PInf \<or> (\<exists>i<Suc k. pl (pts ! i) = mn)"
    using b0 mn by (auto intro: less_SucI)
  have 4: "\<forall>i<Suc k. \<not> js_lt (pl (pts ! i)) mn"
  proof (intro allI impI)
    fix i assume "i < Suc k"
    then consider "i < k" | "i = k" by linarith
    then show "\<not> js_lt (pl (pts ! i)) mn"
    proof cases
      case 1
      with l0 have "\<not> js_lt (pl (pts ! i)) mn0" by blast
      then show ?thesis using mn by (auto dest: js_lt_trans)
    next
      case 2
      then show ?thesis using mn by (auto simp: js_lt_irrefl)
    qed
  qed
  from 1 2 3 4 show ?case by blast
qed

lemma scanPL_invariant:
  assumes "scanPL pts = (mx, mn, bs)"
  shows "(mx = NInf \<or> mx \<in> pl ` set pts) \<and> (\<forall>q \<in> set pts. \<not> js_gt (pl q) mx)
       \<and> (mn = PInf \<or> mn \<in> pl ` set pts) \<and> (\<forall>q \<in> set pts. \<not> js_lt (pl q) mn)"
proof -
  from assms have "foldl (scanStep pts) (NInf, PInf, []) [0 ..< length pts] = (mx, mn, bs)"
    by (simp add: scanPL_def)
  from scan_invariant [OF le_refl this] have
    a: "mx = NInf \<or> (\<exists>i<length pts. pl (pts ! i) = mx)"
    and u: "\<forall>i<length pts. \<not> js_lt mx (pl (pts ! i))"
    and b: "mn = PInf \<or> (\<exists>i<length pts. pl (pts ! i) = mn)"
    and l: "\<forall>i<length pts. \<not> js_lt (pl (pts ! i)) mn"
    by blast+
  from a have 1: "mx = NInf \<or> mx \<in> pl ` set pts" by (metis image_eqI nth_mem)
  from b have 3: "mn = PInf \<or> mn \<in> pl ` set pts" by (metis image_eqI nth_mem)
  from u have 2: "\<forall>q \<in> set pts. \<not> js_gt (pl q) mx"
    by (auto simp: js_gt_def in_set_conv_nth)
  from l have 4: "\<forall>q \<in> set pts. \<not> js_lt (pl q) mn"
    by (auto simp: in_set_conv_nth)
  from 1 2 3 4 show ?thesis by blast
qed

lemma scanPL_finite:
  assumes "scanPL pts = (mx, mn, bs)" and fin: "\<forall>q \<in> set pts. isNum (pl q)" and ne: "pts \<noteq> []"
  shows "isNum mx \<and> isNum mn \<and> mx \<in> pl ` set pts \<and> mn \<in> pl ` set pts"
proof -
  note inv = scanPL_invariant [OF assms(1)]
  from ne obtain q where q: "q \<in> set pts" by (cases pts) auto
  with fin obtain y where y: "pl q = Num y" by (auto simp: isNum_iff)
  from inv q have "\<not> js_gt (pl q) mx" "\<not> js_lt (pl q) mn" by blast+
  with y have "mx \<noteq> NInf" "mn \<noteq> PInf" by (auto simp: js_gt_def)
  with inv have "mx \<in> pl ` set pts" "mn \<in> pl ` set pts" by blast+
  with fin show ?thesis by auto
qed

lemma analyzeStrategy_scan:
  assumes "scanPL (map (\<lambda>p. \<lparr> pprice = p, pl = roundTo 100 (totalPL positions p e) \<rparr>)
                       (generatePriceRange spot (Num 0.3) 100)) = (mx, mn, bs)"
  shows "analyzeStrategy positions spot e =
     Inr \<lparr> maxProfit = (if mx = PInf then Unlimited else Value (roundTo 100 mx)),
           maxLoss = (if mn = NInf then Unlimited else Value (roundTo 100 mn)),
           breakevenPoints = map (roundTo 100) bs,
           netPremium = roundTo 100
             (foldl (\<lambda>sum pos.
                      if ptype pos = ''option''
                      then js_add sum (js_mul (js_mul (premium pos) (quantity pos)) (Num 100))
                      else sum)
                   (Num 0) positions),
           plData = map (\<lambda>p. \<lparr> pprice = p, pl = roundTo 100 (totalPL positions p e) \<rparr>)
                        (generatePriceRange spot (Num 0.3) 100) \<rparr>"
  using assms
  by (simp add: analyzeStrategy_def calculateStrategyPL_totalPL Let_def js_eq_PInf js_eq_NInf)

text \<open>
  Claim C8, as amended.  \<open>analyzeStrategy\<close> scans the 101 points that
  \<open>calculateStrategyPL\<close> computes from the legs on the grid around the spot price.
  The scanned maximum is the profit and loss of one of the points, unless it is
  still the initial \<open>-Infinity\<close>, and no point has a larger one; the scanned minimum
  is that of one of the points, unless it is still the initial \<open>+Infinity\<close>, and no
  point has a smaller one.  \<open>maxProfit\<close> is \<open>'Unlimited'\<close> exactly when the scanned
  maximum is \<open>+Infinity\<close> and \<open>maxLoss\<close> exactly when the scanned minimum is
  \<open>-Infinity\<close>, the opposite of the initial values; otherwise they are the scanned
  extremes after \<open>Math.round(x * 100) / 100\<close>.  When every profit and loss on the
  grid is a finite number, the scanned extremes are finite numbers attained on the
  grid and neither result is \<open>'Unlimited'\<close>.
\<close>

theorem analyzeStrategy_extremes:
  "\<exists>r mx mn bs.
      analyzeStrategy positions spot e = Inr r
    \<and> plData r = map (\<lambda>p. \<lparr> pprice = p, pl = roundTo 100 (totalPL positions p e) \<rparr>)
                     (generatePriceRange spot (Num 0.3) 100)
    \<and> length (plData r) = 101
    \<and> scanPL (plData r) = (mx, mn, bs)
    \<and> (mx = NInf \<or> mx \<in> pl ` set (plData r))
    \<and> (\<forall>q \<in> set (plData r). \<not> js_gt (pl q) mx)
    \<and> (mn = PInf \<or> mn \<in> pl ` set (plData r))
    \<and> (\<forall>q \<in> set (plData r). \<not> js_lt (pl q) mn)
    \<and> maxProfit r = (if mx = PInf then Unlimited else Value (roundTo 100 mx))
    \<and> maxLoss r = (if mn = NInf then Unlimited else Value (roundTo 100 mn))
    \<and> ((\<forall>q \<in> set (plData r). isNum (pl q)) \<longrightarrow>
          isNum mx \<and> isNum mn \<and> mx \<in> pl ` set (plData r) \<and> mn \<in> pl ` set (plData r)
          \<and> maxProfit r = Value (roundTo 100 mx) \<and> maxLoss r = Value (roundTo 100 mn))"
proof -
  define pts where
    "pts = map (\<lambda>p. \<lparr> pprice = p, pl = roundTo 100 (totalPL positions p e) \<rparr>)
               (generatePriceRange spot (Num 0.3) 100)"
  obtain mx mn bs where scan: "scanPL pts = (mx, mn, bs)" by (metis prod_cases3)
  define r where
    "r = \<lparr> maxProfit = (if mx = PInf then Unlimited else Value (roundTo 100 mx)),
           maxLoss = (if mn = NInf then Unlimited else Value (roundTo 100 mn)),
           breakevenPoints = map (roundTo 100) bs,
           netPremium = roundTo 100
             (foldl (\<lambda>sum pos.
                      if ptype pos = ''option''
                      then js_add sum (js_mul (js_mul (premium pos) (quantity pos)) (Num 100))
                      else sum)
                   (Num 0) positions),
           plData = pts \<rparr>"
  have res: "analyzeStrategy positions spot e = Inr r"
    using analyzeStrategy_scan [OF scan [unfolded pts_def]] by (simp add: r_def pts_def)
  have pd: "plData r = pts" by (simp add: r_def)
  have len: "length pts = 101"
    by (simp add: pts_def generatePriceRange_def Let_def del: upt_Suc)
  then have ne: "pts \<noteq> []" by auto
  note inv = scanPL_invariant [OF scan]
  have mp: "maxProfit r = (if mx = PInf then Unlimited else Value (roundTo 100 mx))"
    and ml: "maxLoss r = (if mn = NInf then Unlimited else Value (roundTo 100 mn))"
    by (simp_all add: r_def)
  have fin: "isNum mx \<and> isNum mn \<and> mx \<in> pl ` set pts \<and> mn \<in> pl ` set pts
          \<and> maxProfit r = Value (roundTo 100 mx) \<and> maxLoss r = Value (roundTo 100 mn)"
    if "\<forall>q \<in> set pts. isNum (pl q)"
  proof -
    from scanPL_finite [OF scan that ne]
    have f: "isNum mx" "isNum mn" "mx \<in> pl ` set pts" "mn \<in> pl ` set pts" by blast+
    from f(1,2) have "mx \<noteq> PInf" "mn \<noteq> NInf" by auto
    with f mp ml show ?thesis by simp
  qed
  show ?thesis
    apply (rule exI [of _ r], rule exI [of _ mx], rule exI [of _ mn], rule exI [of _ bs])
    unfolding pd
    using res len scan inv mp ml fin pts_def by blast
qed

lemma strategy_points_finite:
  assumes fin: "\<forall>p \<in> set positions. finitePosition p"
    and q: "q \<in> set (map (\<lambda>p. \<lparr> pprice = p, pl = roundTo 100 (totalPL positions p e) \<rparr>)
                        (generatePriceRange (Num s) (Num 0.3) 100))"
  shows "isNum (pl q)"
proof -
  from q obtain p where p: "p \<in> set (generatePriceRange (Num s) (Num 0.3) 100)"
    and plq: "pl q = roundTo 100 (totalPL positions p e)"
    by auto
  from grid_points_finite [OF p] obtain x where "p = Num x" by blast
  with totalPL_finite [OF fin, of x e] obtain t where "totalPL positions p e = Num t"
    by (auto simp: isNum_iff)
  with plq show ?thesis by (simp add: roundTo_Num)
qed

text \<open>One long call, strike 100, premium 5, around a spot of 100.\<close>

theorem analyzeStrategy_extremes_witness:
  "\<exists>r mx mn.
     analyzeStrategy
       [\<lparr> ptype = ''option'', optionType = ''call'', strike = Num 100, premium = Num 5,
          quantity = Num 1, expiry = Num 0 \<rparr>] (Num 100) (Num 0) = Inr r
     \<and> length (plData r) = 101
     \<and> isNum mx \<and> isNum mn \<and> mx \<in> pl ` set (plData r) \<and> mn \<in> pl ` set (plData r)
     \<and> maxProfit r = Value (roundTo 100 mx) \<and> maxLoss r = Value (roundTo 100 mn)"
proof -
  let ?ps = "[\<lparr> ptype = ''option'', optionType = ''call'', strike = Num 100,
                premium = Num 5, quantity = Num 1, expiry = Num 0 \<rparr>]"
  have f: "\<forall>p \<in> set ?ps. finitePosition p"
    by (simp add: finitePosition_def)
  from analyzeStrategy_extremes [of ?ps "Num 100" "Num 0"]
  obtain r mx mn bs where
    r: "analyzeStrategy ?ps (Num 100) (Num 0) = Inr r"
    and pd: "plData r = map (\<lambda>p. \<lparr> pprice = p, pl = roundTo 100 (totalPL ?ps p (Num 0)) \<rparr>)
                     (generatePriceRange (Num 100) (Num 0.3) 100)"
    and len: "length (plData r) = 101"
    and imp: "(\<forall>q \<in> set (plData r). isNum (pl q)) \<longrightarrow>
          isNum mx \<and> isNum mn \<and> mx \<in> pl ` set (plData r) \<and> mn \<in> pl ` set (plData r)
          \<and> maxProfit r = Value (roundTo 100 mx) \<and> maxLoss r = Value (roundTo 100 mn)"
    by blast
  have "\<forall>q \<in> set (plData r). isNum (pl q)"
    unfolding pd using strategy_points_finite [OF f] by blast
  with imp r len show ?thesis by blast
qed

lemma foldl_scan_fixed:
  "\<forall>i \<in> set is. scanStep pts st i = st \<Longrightarrow> foldl (scanStep pts) st is = st"
  by (induction "is") simp_all

lemma scanPL_all_NaN:
  assumes "\<forall>q \<in> set pts. pl q = NaN"
  shows "scanPL pts = (NInf, PInf, [])"
proof -
  have "scanStep pts (NInf, PInf, []) i = (NInf, PInf, [])" if "i < length pts" for i
  proof -
    from that assms have "pl (pts ! i) = NaN" by simp
    moreover from that assms have "pl (pts ! (i - 1)) = NaN" by simp
    ultimately show ?thesis by (simp add: scanStep_def Let_def js_gt_def js_le_def)
  qed
  then show ?thesis
    unfolding scanPL_def by (intro foldl_scan_fixed) simp
qed

lemma scanPL_all_PInf:
  assumes "\<forall>q \<in> set pts. pl q = PInf" and "pts \<noteq> []"
  shows "scanPL pts = (PInf, PInf, [])"
proof -
  have fixed: "scanStep pts (PInf, PInf, []) i = (PInf, PInf, [])" if "i < length pts" for i
  proof -
    from that assms have "pl (pts ! i) = PInf" by simp
    moreover from that assms have "pl (pts ! (i - 1)) = PInf" by simp
    ultimately show ?thesis by (simp add: scanStep_def Let_def js_gt_def js_le_def)
  qed
  from assms have p0: "pl (pts ! 0) = PInf" by (cases pts) auto
  have first: "scanStep pts (NInf, PInf, []) 0 = (PInf, PInf, [])"
    using p0 by (simp add: scanStep_def Let_def js_gt_def)
  from assms(2) have "[0 ..< length pts] = 0 # [Suc 0 ..< length pts]"
    by (simp add: upt_conv_Cons)
  then have "scanPL pts = foldl (scanStep pts) (PInf, PInf, []) [Suc 0 ..< length pts]"
    by (simp add: scanPL_def first)
  also have "\<dots> = (PInf, PInf, [])"
    by (intro foldl_scan_fixed) (simp add: fixed)
  finally show ?thesis .
qed

lemma grid_NaN:
  "p \<in> set (generatePriceRange NaN (Num 0.3) 100) \<Longrightarrow> p = NaN"
  by (auto simp: generatePriceRange_def Let_def roundTo_def)

lemma grid_100_positive:
  assumes "p \<in> set (generatePriceRange (Num 100) (Num 0.3) 100)"
  shows "\<exists>x. p = Num x \<and> 0 < x"
proof -
  from assms obtain i where
    p: "p = Num (roundTo_real 100
             (100 * (1 - 0.3) + real i * ((100 * (1 + 0.3) - 100 * (1 - 0.3)) / real 100)))"
    unfolding generatePriceRange_100 by auto
  have "(70 :: real) \<le> 100 * (1 - 0.3) + real i * ((100 * (1 + 0.3) - 100 * (1 - 0.3)) / real 100)"
    by simp
  from roundTo_real_mono [OF this] roundTo_real_int [of 70]
  have "70 \<le> roundTo_real 100
             (100 * (1 - 0.3) + real i * ((100 * (1 + 0.3) - 100 * (1 - 0.3)) / real 100))"
    by simp
  with p show ?thesis by auto
qed

text \<open>
  Claim C8 fails.  For a spot price of NaN every profit and loss of a long call is
  NaN, both extremes still equal their initial values, and the results are the
  numbers \<open>-Infinity\<close> and \<open>+Infinity\<close>, not \<open>'Unlimited'\<close> and not finite.  For a stock
  leg of infinite quantity every profit and loss is \<open>+Infinity\<close>: \<open>maxProfit\<close> is
  \<open>'Unlimited'\<close> although the maximum is not the initial \<open>-Infinity\<close>, and \<open>maxLoss\<close> is
  the number \<open>+Infinity\<close>.
\<close>

theorem analyzeStrategy_sentinel_counterexample:
  "map_sum id maxProfit
     (analyzeStrategy
        [\<lparr> ptype = ''option'', optionType = ''call'', strike = Num 100, premium = Num 5,
           quantity = Num 1, expiry = Num 0 \<rparr>] NaN (Num 0)) = Inr (Value NInf)
   \<and> map_sum id maxLoss
     (analyzeStrategy
        [\<lparr> ptype = ''option'', optionType = ''call'', strike = Num 100, premium = Num 5,
           quantity = Num 1, expiry = Num 0 \<rparr>] NaN (Num 0)) = Inr (Value PInf)
   \<and> map_sum id maxProfit
     (analyzeStrategy
        [\<lparr> ptype = ''stock'', optionType = [], strike = NaN, premium = Num 0,
           quantity = PInf, expiry = NaN \<rparr>] (Num 100) (Num 0)) = Inr Unlimited
   \<and> map_sum id maxLoss
     (analyzeStrategy
        [\<lparr> ptype = ''stock'', optionType = [], strike = NaN, premium = Num 0,
           quantity = PInf, expiry = NaN \<rparr>] (Num 100) (Num 0)) = Inr (Value PInf)"
proof -
  let ?call = "[\<lparr> ptype = ''option'', optionType = ''call'', strike = Num 100,
                  premium = Num 5, quantity = Num 1, expiry = Num 0 \<rparr>]"
  let ?stock = "[\<lparr> ptype = ''stock'', optionType = [], strike = NaN, premium = Num 0,
                   quantity = PInf, expiry = NaN \<rparr>]"
  have "scanPL (map (\<lambda>p. \<lparr> pprice = p, pl = roundTo 100 (totalPL ?call p (Num 0)) \<rparr>)
                    (generatePriceRange NaN (Num 0.3) 100)) = (NInf, PInf, [])"
    by (rule scanPL_all_NaN)
       (auto dest!: grid_NaN simp: totalPL_def calculatePositionPL_option roundTo_def js_sub_def)
  from analyzeStrategy_scan [OF this]
  have 1: "map_sum id maxProfit (analyzeStrategy ?call NaN (Num 0)) = Inr (Value NInf)"
    and 2: "map_sum id maxLoss (analyzeStrategy ?call NaN (Num 0)) = Inr (Value PInf)"
    by (simp_all add: roundTo_def)
  have ne: "map (\<lambda>p. \<lparr> pprice = p, pl = roundTo 100 (totalPL ?stock p (Num 0)) \<rparr>)
                (generatePriceRange (Num 100) (Num 0.3) 100) \<noteq> []"
    by (simp add: generatePriceRange_def Let_def del: upt_Suc)
  have "scanPL (map (\<lambda>p. \<lparr> pprice = p, pl = roundTo 100 (totalPL ?stock p (Num 0)) \<rparr>)
                    (generatePriceRange (Num 100) (Num 0.3) 100)) = (PInf, PInf, [])"
    by (rule scanPL_all_PInf [OF _ ne])
       (auto dest!: grid_100_positive
             simp: totalPL_def calculatePositionPL_def roundTo_def js_sub_def)
  from analyzeStrategy_scan [OF this]
  have 3: "map_sum id maxProfit (analyzeStrategy ?stock (Num 100) (Num 0)) = Inr Unlimited"
    and 4: "map_sum id maxLoss (analyzeStrategy ?stock (Num 100) (Num 0)) = Inr (Value PInf)"
    by (simp_all add: roundTo_def)
  from 1 2 3 4 show ?thesis by blast
qed

section \<open>The bull call spread\<close>

lemma bullCallSpread_finite:
  "\<forall>p \<in> set (bullCallSpread (Num a) (Num b) (Num c) (Num d) e). finitePosition p"
  by (simp add: bullCallSpread_def finitePosition_def)

lemma bullCallSpread_totalPL:
  "totalPL (bullCallSpread (Num 100) (Num 5) (Num 110) (Num 2) e) (Num x) d = Num (bullPayoff x)"
  by (simp add: totalPL_def bullCallSpread_def calculatePositionPL_option js_sub_Num js_max_Num
        bullPayoff_def)

lemma bullPayoff_bounds:
  "- 300 \<le> bullPayoff x" "bullPayoff x \<le> 700"
  "x \<le> 100 \<Longrightarrow> bullPayoff x = - 300" "110 \<le> x \<Longrightarrow> bullPayoff x = 700"
  by (simp_all add: bullPayoff_def max_def)

lemma roundTo_real_300: "roundTo_real 100 (- 300) = - 300"
  using roundTo_real_int [of "- 300"] by simp

lemma roundTo_real_700: "roundTo_real 100 700 = 700"
  using roundTo_real_int [of 700] by simp

lemma roundTo_real_100: "roundTo_real 100 100 = 100"
  using roundTo_real_int [of 100] by simp

lemma roundTo_real_110: "roundTo_real 100 110 = 110"
  using roundTo_real_int [of 110] by simp

lemma bull_pl_bounds:
  "- 300 \<le> roundTo_real 100 (bullPayoff x)" "roundTo_real 100 (bullPayoff x) \<le> 700"
  using roundTo_real_mono [OF bullPayoff_bounds(1), of x]
        roundTo_real_mono [OF bullPayoff_bounds(2), of x]
  by (simp_all add: roundTo_real_300 roundTo_real_700)

lemma bullCallSpread_netPremium:
  "roundTo 100
     (foldl (\<lambda>sum pos.
               if ptype pos = ''option''
               then js_add sum (js_mul (js_mul (premium pos) (quantity pos)) (Num 100))
               else sum)
            (Num 0) (bullCallSpread (Num 100) (Num 5) (Num 110) (Num 2) e)) = Num 300"
  using roundTo_real_int [of 300]
  by (simp add: bullCallSpread_def roundTo_Num)

text \<open>
  Claim C2, as amended.  For the bull call spread with lower strike 100 at premium 5
  and upper strike 110 at premium 2, and a spot price whose grid from 70 to 130
  percent reaches down to 100 and up to 110, \<open>analyzeStrategy\<close> returns
  \<open>netPremium = 300\<close> (the sum of premium times quantity times 100 over the option
  legs, positive for a net debit), \<open>maxLoss = -300\<close>, which is the profit and loss of
  every point at or below the price 100, and \<open>maxProfit = 700\<close>, which is that of
  every point at or above 110.
\<close>

theorem bullCallSpread_analysis:
  assumes lo_ok: "s * (1 - 0.3) \<le> 100" and hi_ok: "110 \<le> s * (1 + 0.3)"
  shows "\<exists>r. analyzeStrategy (bullCallSpread (Num 100) (Num 5) (Num 110) (Num 2) e) (Num s) d
               = Inr r
     \<and> netPremium r = Num 300
     \<and> maxLoss r = Value (Num (- 300))
     \<and> maxProfit r = Value (Num 700)
     \<and> (\<forall>q \<in> set (plData r). \<forall>x. pprice q = Num x \<longrightarrow>
           (x \<le> 100 \<longrightarrow> pl q = Num (- 300)) \<and> (110 \<le> x \<longrightarrow> pl q = Num 700))"
proof -
  let ?ps = "bullCallSpread (Num 100) (Num 5) (Num 110) (Num 2) e"
  let ?grid = "generatePriceRange (Num s) (Num 0.3) 100"
  from analyzeStrategy_finite [OF bullCallSpread_finite, of 100 5 110 2 e d s]
  obtain hi lo bs pts where
    pts: "pts = map (\<lambda>p. \<lparr> pprice = p, pl = roundTo 100 (totalPL ?ps p d) \<rparr>) ?grid"
    and r: "analyzeStrategy ?ps (Num s) d =
         Inr \<lparr> maxProfit = Value (Num hi), maxLoss = Value (Num lo),
               breakevenPoints = map (roundTo 100) bs,
               netPremium = roundTo 100
                 (foldl (\<lambda>sum pos.
                          if ptype pos = ''option''
                          then js_add sum (js_mul (js_mul (premium pos) (quantity pos)) (Num 100))
                          else sum)
                       (Num 0) ?ps),
               plData = pts \<rparr>"
    and hi: "Num hi \<in> pl ` set pts" and lo: "Num lo \<in> pl ` set pts"
    and all: "\<forall>q \<in> set pts. \<exists>y. pl q = Num y \<and> lo \<le> y \<and> y \<le> hi"
    by blast
  have point: "\<exists>x. pprice q = Num x \<and> pl q = Num (roundTo_real 100 (bullPayoff x))"
    if "q \<in> set pts" for q
  proof -
    from that obtain p where p: "p \<in> set ?grid" and q: "q = \<lparr> pprice = p, pl = roundTo 100 (totalPL ?ps p d) \<rparr>"
      by (auto simp: pts)
    from grid_points_finite [OF p] obtain x where "p = Num x" by blast
    with q show ?thesis by (simp add: bullCallSpread_totalPL roundTo_Num)
  qed
  have first: "Num (roundTo_real 100 (s * (1 - 0.3))) \<in> set ?grid"
    unfolding generatePriceRange_100 by (auto intro!: image_eqI [of _ _ 0])
  have e100: "s * (1 - 0.3) + real (100::nat) * ((s * (1 + 0.3) - s * (1 - 0.3)) / real (100::nat))
                = s * (1 + 0.3)"
    by simp
  have "(100::nat) \<in> set [0 ..< 100 + 1]" by simp
  then have "Num (roundTo_real 100
               (s * (1 - 0.3) + real (100::nat) * ((s * (1 + 0.3) - s * (1 - 0.3)) / real (100::nat))))
             \<in> set ?grid"
    unfolding generatePriceRange_100 set_map by (rule imageI)
  then have last: "Num (roundTo_real 100 (s * (1 + 0.3))) \<in> set ?grid"
    by (simp only: e100)
  have "roundTo_real 100 (s * (1 - 0.3)) \<le> 100"
    using roundTo_real_mono [OF lo_ok] by (simp add: roundTo_real_100)
  then have low_pt: "Num (- 300) \<in> pl ` set pts"
    using first
    by (auto simp: pts bullCallSpread_totalPL roundTo_Num bullPayoff_bounds(3) roundTo_real_300
             intro!: image_eqI [of _ _ "\<lparr> pprice = Num (roundTo_real 100 (s * (1 - 0.3))), pl = Num (- 300) \<rparr>"])
  have "110 \<le> roundTo_real 100 (s * (1 + 0.3))"
    using roundTo_real_mono [OF hi_ok] by (simp add: roundTo_real_110)
  then have high_pt: "Num 700 \<in> pl ` set pts"
    using last
    by (auto simp: pts bullCallSpread_totalPL roundTo_Num bullPayoff_bounds(4) roundTo_real_700
             intro!: image_eqI [of _ _ "\<lparr> pprice = Num (roundTo_real 100 (s * (1 + 0.3))), pl = Num 700 \<rparr>"])
  have range: "- 300 \<le> y \<and> y \<le> 700" if "Num y \<in> pl ` set pts" for y
  proof -
    from that obtain q where "q \<in> set pts" "pl q = Num y" by force
    with point [of q] bull_pl_bounds show ?thesis by auto
  qed
  from low_pt all have "lo \<le> - 300" by force
  with range [OF lo] have lo_eq: "lo = - 300" by simp
  from high_pt all have "700 \<le> hi" by force
  with range [OF hi] have hi_eq: "hi = 700" by simp
  have pts_ok: "\<forall>q \<in> set pts. \<forall>x. pprice q = Num x \<longrightarrow>
           (x \<le> 100 \<longrightarrow> pl q = Num (- 300)) \<and> (110 \<le> x \<longrightarrow> pl q = Num 700)"
  proof (intro ballI allI impI conjI)
    fix q x assume q: "q \<in> set pts" and x: "pprice q = Num x"
    from point [OF q] x have plq: "pl q = Num (roundTo_real 100 (bullPayoff x))" by auto
    show "pl q = Num (- 300)" if "x \<le> 100"
      using plq that by (simp add: bullPayoff_bounds(3) roundTo_real_300)
    show "pl q = Num 700" if "110 \<le> x"
      using plq that by (simp add: bullPayoff_bounds(4) roundTo_real_700)
  qed
  from r lo_eq hi_eq pts_ok show ?thesis
    by (simp add: bullCallSpread_netPremium)
qed

text \<open>A spot price of 100, the expiry on 1 January 2026.\<close>

theorem bullCallSpread_analysis_witness:
  "(100::real) * (1 - 0.3) \<le> 100 \<and> (110::real) \<le> 100 * (1 + 0.3)
   \<and> (\<exists>r. analyzeStrategy (bullCallSpread (Num 100) (Num 5) (Num 110) (Num 2)
                               (Num 1767225600000)) (Num 100) (Num 1767225600000) = Inr r
         \<and> netPremium r = Num 300
         \<and> maxLoss r = Value (Num (- 300))
         \<and> maxProfit r = Value (Num 700))"
proof -
  have a: "(100::real) * (1 - 0.3) \<le> 100" and b: "(110::real) \<le> 100 * (1 + 0.3)"
    by simp_all
  from bullCallSpread_analysis [OF a b, of "Num 1767225600000" "Num 1767225600000"] a b
  show ?thesis by blast
qed

text \<open>
  Claim C2 fails for the net premium: the long leg contributes \<open>5 * 1 * 100\<close> and the
  short leg \<open>2 * (-1) * 100\<close>, so the value returned is \<open>300\<close>, not \<open>-300\<close>.
\<close>

theorem bullCallSpread_netPremium_counterexample:
  "map_sum id netPremium
     (analyzeStrategy (bullCallSpread (Num 100) (Num 5) (Num 110) (Num 2) (Num 1767225600000))
        (Num 100) (Num 1767225600000)) = Inr (Num 300)
   \<and> map_sum id netPremium
     (analyzeStrategy (bullCallSpread (Num 100) (Num 5) (Num 110) (Num 2) (Num 1767225600000))
        (Num 100) (Num 1767225600000)) \<noteq> Inr (Num (- 300))"
proof -
  from analyzeStrategy_finite [OF bullCallSpread_finite, of 100 5 110 2 "Num 1767225600000"
         "Num 1767225600000" 100]
  have "map_sum id netPremium
     (analyzeStrategy (bullCallSpread (Num 100) (Num 5) (Num 110) (Num 2) (Num 1767225600000))
        (Num 100) (Num 1767225600000)) = Inr (Num 300)"
    by (auto simp: bullCallSpread_netPremium)
  then show ?thesis by simp
qed

end
